theory Spec2Isabelle
  imports Complex_Main
begin

section \<open>Python values and records\<close>

text \<open>
  The records handled by \<^verbatim>\<open>scm/process.py\<close> are Python dictionaries with string keys
  whose values are \<^verbatim>\<open>None\<close>, booleans, integers, strings, lists and nested dictionaries
  (parsed XML and decoded JSON). A dictionary is an association list in insertion
  order; a key is looked up with \<open>map_of\<close>. Floating-point numbers are not modelled.
\<close>

datatype pyval =
    PNone
  | PBool bool
  | PInt int
  | PStr string
  | PList "pyval list"
  | PDict "(string \<times> pyval) list"

type_synonym pydict = "(string \<times> pyval) list"

datatype error =
    KeyError
  | TypeError
  | ValueError
  | StopIteration
  | NotImplementedError
  | Raised string

text \<open>
  Python's \<^verbatim>\<open>==\<close> on these values: \<^verbatim>\<open>True == 1\<close> and \<^verbatim>\<open>False == 0\<close> hold, lists are
  compared position by position, dictionaries key by key whatever the insertion order.
\<close>

fun py_eq :: "pyval \<Rightarrow> pyval \<Rightarrow> bool"
  and py_eq_list :: "pyval list \<Rightarrow> pyval list \<Rightarrow> bool"
  and py_eq_items :: "(string \<times> pyval) list \<Rightarrow> (string \<times> pyval) list \<Rightarrow> bool" where
  "py_eq PNone v = (v = PNone)"
| "py_eq (PBool a) v =
     (case v of PBool b \<Rightarrow> a = b | PInt j \<Rightarrow> (if a then 1 else 0) = j | _ \<Rightarrow> False)"
| "py_eq (PInt i) v =
     (case v of PBool b \<Rightarrow> i = (if b then 1 else 0) | PInt j \<Rightarrow> i = j | _ \<Rightarrow> False)"
| "py_eq (PStr s) v = (case v of PStr t \<Rightarrow> s = t | _ \<Rightarrow> False)"
| "py_eq (PList xs) v = (case v of PList ys \<Rightarrow> py_eq_list xs ys | _ \<Rightarrow> False)"
| "py_eq (PDict d) v =
     (case v of PDict e \<Rightarrow> length d = length e \<and> py_eq_items d e | _ \<Rightarrow> False)"
| "py_eq_list [] ys = (ys = [])"
| "py_eq_list (x # xs) ys =
     (case ys of [] \<Rightarrow> False | y # ys' \<Rightarrow> py_eq x y \<and> py_eq_list xs ys')"
| "py_eq_items [] e = True"
| "py_eq_items ((k, v) # d) e =
     (case map_of e k of None \<Rightarrow> False | Some w \<Rightarrow> py_eq v w \<and> py_eq_items d e)"

text \<open>\<^verbatim>\<open>d[k]\<close> raises \<^verbatim>\<open>KeyError\<close> on a missing key; \<^verbatim>\<open>d.get(k)\<close> returns \<^verbatim>\<open>None\<close>.\<close>

definition getitem :: "pydict \<Rightarrow> string \<Rightarrow> error + pyval" where
  "getitem d k = (case map_of d k of None \<Rightarrow> Inl KeyError | Some v \<Rightarrow> Inr v)"

definition dict_get :: "pydict \<Rightarrow> string \<Rightarrow> pyval" where
  "dict_get d k = (case map_of d k of None \<Rightarrow> PNone | Some v \<Rightarrow> v)"

text \<open>\<^verbatim>\<open>{**d, k: v}\<close>: an existing key keeps its position, a new key goes last.\<close>

fun dict_set :: "('k \<times> 'v) list \<Rightarrow> 'k \<Rightarrow> 'v \<Rightarrow> ('k \<times> 'v) list" where
  "dict_set [] k v = [(k, v)]"
| "dict_set ((k', v') # d) k v =
     (if k' = k then (k, v) # d else (k', v') # dict_set d k v)"

section \<open>Diff engine: \<^verbatim>\<open>SCMObjectManager.needs_update\<close>\<close>

text \<open>
  \<^verbatim>\<open>deep_compare(value1, value2)\<close>, lines 373 to 406; \<open>True\<close> means a difference.
  \<open>deep_compare_dict\<close> is the loop over the keys of \<^verbatim>\<open>value1\<close>, \<open>deep_compare_list\<close>
  the loop over \<^verbatim>\<open>zip(value1, value2)\<close>.
\<close>

fun deep_compare :: "pyval \<Rightarrow> pyval \<Rightarrow> bool"
  and deep_compare_dict :: "(string \<times> pyval) list \<Rightarrow> (string \<times> pyval) list \<Rightarrow> bool"
  and deep_compare_list :: "pyval list \<Rightarrow> pyval list \<Rightarrow> bool" where
  "deep_compare value1 value2 =
     (if (py_eq value1 (PList []) \<and> value2 = PNone) \<or> (value1 = PNone \<and> py_eq value2 (PList []))
      then False
      else if value1 = PNone \<and> value2 = PNone then False
      else if value1 = PNone \<or> value2 = PNone then True
      else (case value1 of
              PDict d1 \<Rightarrow>
                (case value2 of
                   PDict d2 \<Rightarrow> deep_compare_dict d1 d2
                 | _ \<Rightarrow> \<not> py_eq value1 value2)
            | PList l1 \<Rightarrow>
                (case value2 of
                   PList l2 \<Rightarrow>
                     (if length l1 \<noteq> length l2 then True else deep_compare_list l1 l2)
                 | _ \<Rightarrow> \<not> py_eq value1 value2)
            | _ \<Rightarrow> \<not> py_eq value1 value2))"
| "deep_compare_dict [] d2 = False"
| "deep_compare_dict ((key, v) # rest) d2 =
     (case map_of d2 key of
        None \<Rightarrow> True
      | Some w \<Rightarrow> (if deep_compare v w then True else deep_compare_dict rest d2))"
| "deep_compare_list [] l2 = False"
| "deep_compare_list (item1 # rest1) l2 =
     (case l2 of
        [] \<Rightarrow> False
      | item2 # rest2 \<Rightarrow>
          (case (item1, item2) of
             (PDict _, PDict _) \<Rightarrow>
               (if deep_compare item1 item2 then True else deep_compare_list rest1 rest2)
           | _ \<Rightarrow> (if \<not> py_eq item1 item2 then True else deep_compare_list rest1 rest2)))"

declare deep_compare.simps(1) [simp del]

text \<open>
  The loop of \<^verbatim>\<open>needs_update\<close>, lines 408 to 420, over the items of \<^verbatim>\<open>new_object\<close>.
  On the values above \<open>deep_compare\<close> never raises; the \<^verbatim>\<open>try/except Exception\<close> around
  it guards against a comparison that does (an object with its own \<^verbatim>\<open>__eq__\<close>, the
  recursion limit), so the loop is modelled over any comparison \<open>cmp\<close> that returns a
  boolean or raises. Every log message is an f-string that reads
  \<^verbatim>\<open>new_object['name']\<close>: it raises \<^verbatim>\<open>KeyError\<close> when that key is missing, inside the
  handler too, and then the error leaves the function.
\<close>

fun needs_update_items ::
  "(pyval \<Rightarrow> pyval \<Rightarrow> error + bool) \<Rightarrow> pydict \<Rightarrow> (string \<times> pyval) list \<Rightarrow> pydict \<Rightarrow> error + bool" where
  "needs_update_items cmp new_object [] current_object =
     (case getitem new_object ''name'' of Inl e \<Rightarrow> Inl e | Inr _ \<Rightarrow> Inr False)"
| "needs_update_items cmp new_object ((key, v) # rest) current_object =
     (if key = ''name'' then needs_update_items cmp new_object rest current_object
      else
        (let existing_value = dict_get current_object key in
         case cmp v existing_value of
           Inr True \<Rightarrow>
             (case getitem new_object ''name'' of Inl e \<Rightarrow> Inl e | Inr _ \<Rightarrow> Inr True)
         | Inr False \<Rightarrow> needs_update_items cmp new_object rest current_object
         | Inl _ \<Rightarrow>
             (case getitem new_object ''name'' of
                Inl e \<Rightarrow> Inl e
              | Inr _ \<Rightarrow> needs_update_items cmp new_object rest current_object)))"

definition needs_update_with ::
  "(pyval \<Rightarrow> pyval \<Rightarrow> error + bool) \<Rightarrow> pydict \<Rightarrow> pydict \<Rightarrow> error + bool" where
  "needs_update_with cmp new_object current_object =
     (if current_object = []
      then (case getitem new_object ''name'' of Inl e \<Rightarrow> Inl e | Inr _ \<Rightarrow> Inr False)
      else needs_update_items cmp new_object new_object current_object)"

definition needs_update :: "pydict \<Rightarrow> pydict \<Rightarrow> error + bool" where
  "needs_update = needs_update_with (\<lambda>value1 value2. Inr (deep_compare value1 value2))"

text \<open>The fields whose comparison with the current record raises.\<close>

definition comparison_raises ::
  "(pyval \<Rightarrow> pyval \<Rightarrow> error + bool) \<Rightarrow> pydict \<Rightarrow> string \<times> pyval \<Rightarrow> bool" where
  "comparison_raises cmp current_object item =
     isl (cmp (snd item) (dict_get current_object (fst item)))"

definition without_raising_fields ::
  "(pyval \<Rightarrow> pyval \<Rightarrow> error + bool) \<Rightarrow> pydict \<Rightarrow> pydict \<Rightarrow> pydict" where
  "without_raising_fields cmp new_object current_object =
     filter (\<lambda>item. fst item = ''name'' \<or> \<not> comparison_raises cmp current_object item) new_object"

section \<open>The remote gateway and the engine's state\<close>

text \<open>
  The API handler (\<^verbatim>\<open>api_handler.get\<close>, \<^verbatim>\<open>api_handler.post\<close>) is an external
  collaborator: the engine is verified against any gateway, a state machine over a
  remote state \<open>'r\<close> whose calls return a value or raise. \<open>gw_get\<close> takes the
  endpoint (\<^verbatim>\<open>None\<close> for a class without \<^verbatim>\<open>_endpoint\<close>), folder, limit and position and
  returns the fetched records. \<open>gw_post\<close> is the create call. \<open>gw_move\<close> is the post to
  \<^verbatim>\<open>f"{endpoint}/{rule_id}:move"\<close> with the move data; the request is kept as its three
  parts instead of the formatted URL. Every call is appended to the trace \<open>calls\<close>.
\<close>

datatype call =
    GetCall "string option" string string string
  | PostCall string pydict
  | MoveCall string pyval pydict

record 'r gateway =
  gw_get :: "'r \<Rightarrow> string option \<Rightarrow> string \<Rightarrow> string \<Rightarrow> string \<Rightarrow> 'r \<times> (error + pyval list)"
  gw_post :: "'r \<Rightarrow> string \<Rightarrow> pydict \<Rightarrow> 'r \<times> (error + pydict)"
  gw_move :: "'r \<Rightarrow> string \<Rightarrow> pyval \<Rightarrow> pydict \<Rightarrow> 'r \<times> (error + pydict)"

text \<open>
  The log lines of \<^verbatim>\<open>post_entries\<close>, \<^verbatim>\<open>create_objects\<close> and \<^verbatim>\<open>log_summary\<close>, as
  data: \<open>LogNoEntries\<close> is "No entries to process.", \<open>LogProcessing n m\<close> is
  "Processing n m entries in parallel.", \<open>LogWorkers n\<close> is "Running with n workers.",
  \<open>LogResponse\<close> and \<open>LogPostError\<close> are the lines of \<^verbatim>\<open>create_objects\<close> for a
  response and for a raised error, and
  \<open>LogSummary message created exists errors initial missing error_objects elapsed\<close> is
  the summary of \<^verbatim>\<open>log_summary\<close>: the counts, the initial count, the potential missing
  objects, the names with errors and the elapsed time. The log lines of the other
  functions, which read local variables only, are left out.
\<close>

datatype log_event =
    LogNoEntries
  | LogProcessing nat string
  | LogWorkers int
  | LogResponse pydict
  | LogPostError error
  | LogSummary string nat nat nat nat int "pyval list" real

record 'r world =
  remote :: 'r
  calls :: "call list"
  log :: "log_event list"

definition api_get ::
  "'r gateway \<Rightarrow> 'r world \<Rightarrow> string option \<Rightarrow> string \<Rightarrow> string \<Rightarrow> string \<Rightarrow> 'r world \<times> (error + pyval list)" where
  "api_get gw w endpoint folder limit position =
     (case gw_get gw (remote w) endpoint folder limit position of
        (r, res) \<Rightarrow>
          (w\<lparr>remote := r, calls := calls w @ [GetCall endpoint folder limit position]\<rparr>, res))"

definition api_post ::
  "'r gateway \<Rightarrow> 'r world \<Rightarrow> string \<Rightarrow> pydict \<Rightarrow> 'r world \<times> (error + pydict)" where
  "api_post gw w endpoint data =
     (case gw_post gw (remote w) endpoint data of
        (r, res) \<Rightarrow> (w\<lparr>remote := r, calls := calls w @ [PostCall endpoint data]\<rparr>, res))"

definition api_move ::
  "'r gateway \<Rightarrow> 'r world \<Rightarrow> string \<Rightarrow> pyval \<Rightarrow> pydict \<Rightarrow> 'r world \<times> (error + pydict)" where
  "api_move gw w endpoint rule_id move_data =
     (case gw_move gw (remote w) endpoint rule_id move_data of
        (r, res) \<Rightarrow>
          (w\<lparr>remote := r, calls := calls w @ [MoveCall endpoint rule_id move_data]\<rparr>, res))"

definition emit :: "'r world \<Rightarrow> log_event \<Rightarrow> 'r world" where
  "emit w ev = w\<lparr>log := log w @ [ev]\<rparr>"

text \<open>
  An object type is a class of \<^verbatim>\<open>scm/obj.py\<close>: its \<^verbatim>\<open>__name__\<close> and its \<^verbatim>\<open>_endpoint\<close>,
  which is \<^verbatim>\<open>None\<close> in the base class; \<^verbatim>\<open>get_endpoint\<close> then raises.
\<close>

record obj_type =
  type_name :: string
  endpoint_of :: "string option"

definition get_endpoint :: "obj_type \<Rightarrow> error + string" where
  "get_endpoint cls =
     (case endpoint_of cls of None \<Rightarrow> Inl NotImplementedError | Some e \<Rightarrow> Inr e)"

text \<open>
  \<^verbatim>\<open>s.replace(old, new)\<close>: every occurrence of \<open>old\<close>, left to right and without
  overlap; \<open>skip\<close> counts the characters of a matched occurrence still to be dropped.
\<close>

fun str_replace_from :: "string \<Rightarrow> string \<Rightarrow> nat \<Rightarrow> string \<Rightarrow> string" where
  "str_replace_from old new skip [] = []"
| "str_replace_from old new (Suc skip) (c # s) = str_replace_from old new skip s"
| "str_replace_from old new 0 (c # s) =
     (if take (length old) (c # s) = old
      then new @ str_replace_from old new (length old - 1) s
      else c # str_replace_from old new 0 s)"

definition str_replace :: "string \<Rightarrow> string \<Rightarrow> string \<Rightarrow> string" where
  "str_replace s old new =
     (if old = [] then concat (map (\<lambda>c. new @ [c]) s) @ new
      else str_replace_from old new 0 s)"

definition has_key :: "pydict \<Rightarrow> string \<Rightarrow> bool" where
  "has_key d k = (map_of d k \<noteq> None)"

section \<open>Apply pipeline: \<^verbatim>\<open>Processor.post_entries\<close>\<close>

text \<open>
  \<^verbatim>\<open>create_objects\<close>, lines 62 to 89. The pool \<^verbatim>\<open>ThreadPoolExecutor(max_workers=...)\<close>
  raises \<^verbatim>\<open>ValueError\<close> for a worker count that is not positive, after the line
  "Running with n workers." and before any post. Otherwise every item of
  \<^verbatim>\<open>data[start_index:]\<close> is submitted. The concurrency is modelled by two orders the
  environment chooses, each a list of positions of the submitted items: \<open>run_order\<close>,
  in which the remote serves the posts, and \<open>completion_order\<close>, in which
  \<^verbatim>\<open>as_completed\<close> yields the futures. \<open>run_posts\<close> serves the posts and records the
  outcome of each position; \<open>collect_results\<close> is the loop over \<^verbatim>\<open>as_completed\<close>: a
  response is appended to \<^verbatim>\<open>results\<close> and logged, a post that raised is logged and
  leaves no result.
\<close>

fun run_posts ::
  "'r gateway \<Rightarrow> 'r world \<Rightarrow> string \<Rightarrow> pydict list \<Rightarrow> nat list \<Rightarrow> (nat \<times> (error + pydict)) list
     \<Rightarrow> 'r world \<times> (nat \<times> (error + pydict)) list" where
  "run_posts gw w endpoint submitted [] outcomes = (w, outcomes)"
| "run_posts gw w endpoint submitted (i # run_order) outcomes =
     (if i < length submitted then
        (case api_post gw w endpoint (submitted ! i) of
           (w', outcome) \<Rightarrow> run_posts gw w' endpoint submitted run_order (outcomes @ [(i, outcome)]))
      else run_posts gw w endpoint submitted run_order outcomes)"

fun collect_results ::
  "'r world \<Rightarrow> (nat \<times> (error + pydict)) list \<Rightarrow> nat list \<Rightarrow> pydict list \<Rightarrow> 'r world \<times> pydict list" where
  "collect_results w outcomes [] results = (w, results)"
| "collect_results w outcomes (i # completion_order) results =
     (case map_of outcomes i of
        Some (Inr response) \<Rightarrow>
          collect_results (emit w (LogResponse response)) outcomes completion_order
            (results @ [response])
      | Some (Inl e) \<Rightarrow>
          collect_results (emit w (LogPostError e)) outcomes completion_order results
      | None \<Rightarrow> collect_results w outcomes completion_order results)"

definition create_objects ::
  "'r gateway \<Rightarrow> 'r world \<Rightarrow> int \<Rightarrow> string \<Rightarrow> nat \<Rightarrow> string \<Rightarrow> pydict list \<Rightarrow> nat list \<Rightarrow> nat list
     \<Rightarrow> 'r world \<times> (error + pydict list)" where
  "create_objects gw w max_workers scope start_index endpoint data run_order completion_order =
     (let w0 = emit w (LogWorkers max_workers);
          endpoint' = endpoint @ ''&folder='' @ scope
      in if max_workers \<le> 0 then (w0, Inl ValueError)
         else
           (case run_posts gw w0 endpoint' (drop start_index data) run_order [] of
              (w1, outcomes) \<Rightarrow>
                (case collect_results w1 outcomes completion_order [] of
                   (w2, results) \<Rightarrow> (w2, Inr results))))"

text \<open>\<^verbatim>\<open>analyze_results\<close>, lines 91 to 115: the loop over the results and its four accumulators.\<close>

fun analyze_results_loop ::
  "pydict list \<Rightarrow> nat \<times> nat \<times> nat \<times> pyval list \<Rightarrow> nat \<times> nat \<times> nat \<times> pyval list" where
  "analyze_results_loop [] acc = acc"
| "analyze_results_loop (result # results) (created_count, exists_count, error_count, error_objects) =
     analyze_results_loop results
       (if has_key result ''status'' \<and> has_key result ''message'' \<and> has_key result ''name'' then
          (if py_eq (dict_get result ''status'') (PStr ''success'') then
             (if py_eq (dict_get result ''message'') (PStr ''Object processed'')
              then (created_count + 1, exists_count, error_count, error_objects)
              else (created_count, exists_count + 1, error_count, error_objects))
           else if py_eq (dict_get result ''status'') (PStr ''error creating object'')
           then (created_count, exists_count, error_count + 1,
                 error_objects @ [dict_get result ''name''])
           else (created_count, exists_count, error_count, error_objects))
        else (created_count, exists_count, error_count, error_objects))"

definition analyze_results :: "pydict list \<Rightarrow> nat \<times> nat \<times> nat \<times> pyval list" where
  "analyze_results results = analyze_results_loop results (0, 0, 0, [])"

text \<open>
  \<^verbatim>\<open>log_summary\<close>, lines 117 to 144, and \<^verbatim>\<open>post_entries\<close>, lines 30 to 60.
  \<^verbatim>\<open>time.time()\<close> is the reading \<open>clock\<close> of the environment's state, a real number of
  seconds; the summary carries the elapsed time \<^verbatim>\<open>end_time - start_time\<close>, which the
  source prints with two decimals.
\<close>

definition log_summary ::
  "('r \<Rightarrow> real) \<Rightarrow> 'r world \<Rightarrow> nat \<Rightarrow> nat \<Rightarrow> nat \<Rightarrow> nat \<Rightarrow> pyval list \<Rightarrow> string \<Rightarrow> real \<Rightarrow> 'r world" where
  "log_summary clock w initial_count created_count exists_count error_count error_objects message
     start_time =
     (let end_time = clock (remote w);
          processing_time = end_time - start_time
      in emit w (LogSummary message created_count exists_count error_count initial_count
                   (int initial_count - (int created_count + int exists_count)) error_objects
                   processing_time))"

definition post_entries ::
  "'r gateway \<Rightarrow> ('r \<Rightarrow> real) \<Rightarrow> 'r world \<Rightarrow> int \<Rightarrow> string \<Rightarrow> pydict list \<Rightarrow> obj_type \<Rightarrow> string
     \<Rightarrow> nat list \<Rightarrow> nat list \<Rightarrow> 'r world \<times> (error + nat \<times> nat \<times> nat)" where
  "post_entries gw clock w max_workers folder_scope entries cls extra_query_params
     run_order completion_order =
     (if entries = [] then (emit w LogNoEntries, Inr (0, 0, 0))
      else
        (let start_time = clock (remote w);
             initial_entry_count = length entries
         in case get_endpoint cls of
           Inl e \<Rightarrow> (w, Inl e)
         | Inr ep \<Rightarrow>
             (let endpoint_message = str_replace (str_replace ep ''/sse/config/v1/'' '''') ''?'' '''';
                  w1 = emit w (LogProcessing (length entries) endpoint_message);
                  endpoint = ep @ extra_query_params
              in case create_objects gw w1 max_workers folder_scope 0 endpoint entries
                        run_order completion_order of
                (w2, Inl e) \<Rightarrow> (w2, Inl e)
              | (w2, Inr results) \<Rightarrow>
                  (case analyze_results results of
                     (created_count, exists_count, error_count, error_objects) \<Rightarrow>
                       (log_summary clock w2 initial_entry_count created_count exists_count
                          error_count error_objects endpoint_message start_time,
                        Inr (created_count, exists_count, error_count))))))"

section \<open>Rule order reconciler\<close>

text \<open>
  A dictionary keyed by rule names (\<^verbatim>\<open>current_rule_ids\<close>): the keys are Python values,
  compared with \<^verbatim>\<open>==\<close>; a list or a dictionary is unhashable and raises \<^verbatim>\<open>TypeError\<close>
  when used as a key or looked up in a set.
\<close>

definition hashable :: "pyval \<Rightarrow> bool" where
  "hashable v = (case v of PList _ \<Rightarrow> False | PDict _ \<Rightarrow> False | _ \<Rightarrow> True)"

fun key_find :: "(pyval \<times> pyval) list \<Rightarrow> pyval \<Rightarrow> pyval option" where
  "key_find [] k = None"
| "key_find ((k', v) # d) k = (if py_eq k' k then Some v else key_find d k)"

fun key_put :: "(pyval \<times> pyval) list \<Rightarrow> pyval \<Rightarrow> pyval \<Rightarrow> (pyval \<times> pyval) list" where
  "key_put [] k v = [(k, v)]"
| "key_put ((k', v') # d) k v =
     (if py_eq k' k then (k', v) # d else (k', v') # key_put d k v)"

definition key_getitem :: "(pyval \<times> pyval) list \<Rightarrow> pyval \<Rightarrow> error + pyval" where
  "key_getitem d k = (case key_find d k of None \<Rightarrow> Inl KeyError | Some v \<Rightarrow> Inr v)"

text \<open>\<^verbatim>\<open>xs.index(x)\<close>: the first position of \<open>x\<close>, or \<^verbatim>\<open>ValueError\<close>.\<close>

fun py_index :: "pyval list \<Rightarrow> pyval \<Rightarrow> error + nat" where
  "py_index [] x = Inl ValueError"
| "py_index (y # ys) x =
     (if py_eq y x then Inr 0
      else (case py_index ys x of Inl e \<Rightarrow> Inl e | Inr i \<Rightarrow> Inr (Suc i)))"

text \<open>
  The comprehensions of \<^verbatim>\<open>reorder_rules\<close> and \<^verbatim>\<open>check_and_reorder_rules\<close>. Each stops
  at the first element that raises.
  \<^item> \<open>rules_in_folder\<close>: \<^verbatim>\<open>[rule for rule in all_current_rules if rule['folder'] == folder_scope]\<close>
  \<^item> \<open>rule_names\<close>: \<^verbatim>\<open>[rule['name'] for rule in rules]\<close>
  \<^item> \<open>rule_names_no_default\<close>: \<^verbatim>\<open>[rule['name'] for rule in rules if rule['name'] != 'default']\<close>
  \<^item> \<open>rule_ids\<close>: \<^verbatim>\<open>{rule['name']: rule['id'] for rule in current_rules}\<close>
  \<^item> \<open>desired_present\<close>: \<^verbatim>\<open>[rule['name'] for rule in original_rules if rule['name'] in current_rule_ids]\<close>
\<close>

fun rules_in_folder :: "pyval list \<Rightarrow> string \<Rightarrow> error + pydict list" where
  "rules_in_folder [] folder_scope = Inr []"
| "rules_in_folder (rule # rules) folder_scope =
     (case rule of
        PDict d \<Rightarrow>
          (case getitem d ''folder'' of
             Inl e \<Rightarrow> Inl e
           | Inr f \<Rightarrow>
               (case rules_in_folder rules folder_scope of
                  Inl e \<Rightarrow> Inl e
                | Inr rs \<Rightarrow> Inr (if py_eq f (PStr folder_scope) then d # rs else rs)))
      | _ \<Rightarrow> Inl TypeError)"

fun rule_names :: "pydict list \<Rightarrow> error + pyval list" where
  "rule_names [] = Inr []"
| "rule_names (rule # rules) =
     (case getitem rule ''name'' of
        Inl e \<Rightarrow> Inl e
      | Inr n \<Rightarrow> (case rule_names rules of Inl e \<Rightarrow> Inl e | Inr ns \<Rightarrow> Inr (n # ns)))"

fun rule_names_no_default :: "pydict list \<Rightarrow> error + pyval list" where
  "rule_names_no_default [] = Inr []"
| "rule_names_no_default (rule # rules) =
     (case getitem rule ''name'' of
        Inl e \<Rightarrow> Inl e
      | Inr n \<Rightarrow>
          (case rule_names_no_default rules of
             Inl e \<Rightarrow> Inl e
           | Inr ns \<Rightarrow> Inr (if \<not> py_eq n (PStr ''default'') then n # ns else ns)))"

fun rule_ids :: "pydict list \<Rightarrow> (pyval \<times> pyval) list \<Rightarrow> error + (pyval \<times> pyval) list" where
  "rule_ids [] ids = Inr ids"
| "rule_ids (rule # rules) ids =
     (case getitem rule ''name'' of
        Inl e \<Rightarrow> Inl e
      | Inr n \<Rightarrow>
          (case getitem rule ''id'' of
             Inl e \<Rightarrow> Inl e
           | Inr i \<Rightarrow> (if \<not> hashable n then Inl TypeError else rule_ids rules (key_put ids n i))))"

fun desired_present :: "pydict list \<Rightarrow> (pyval \<times> pyval) list \<Rightarrow> error + pyval list" where
  "desired_present [] ids = Inr []"
| "desired_present (rule # rules) ids =
     (case getitem rule ''name'' of
        Inl e \<Rightarrow> Inl e
      | Inr n \<Rightarrow>
          (if \<not> hashable n then Inl TypeError
           else (case desired_present rules ids of
                   Inl e \<Rightarrow> Inl e
                 | Inr ns \<Rightarrow> Inr (if key_find ids n \<noteq> None then n # ns else ns))))"

text \<open>
  The \<^verbatim>\<open>for\<close> loop of lines 171 to 181 over the consecutive pairs of \<^verbatim>\<open>desired_order\<close>:
  a move is the rule id and the move data posted for it.
\<close>

type_synonym move = "pyval \<times> pydict"

fun prepare_moves ::
  "pyval list \<Rightarrow> (pyval \<times> pyval) list \<Rightarrow> string \<Rightarrow> pyval list \<Rightarrow> error + move list" where
  "prepare_moves current_order ids position (rule_name # next_name # rest) =
     (case py_index current_order rule_name of
        Inl e \<Rightarrow> Inl e
      | Inr i \<Rightarrow>
          (case py_index current_order next_name of
             Inl e \<Rightarrow> Inl e
           | Inr j \<Rightarrow>
               (if i > j then
                  (case key_getitem ids rule_name of
                     Inl e \<Rightarrow> Inl e
                   | Inr rule_id \<Rightarrow>
                       (case key_getitem ids next_name of
                          Inl e \<Rightarrow> Inl e
                        | Inr destination_rule_id \<Rightarrow>
                            (case prepare_moves current_order ids position (next_name # rest) of
                               Inl e \<Rightarrow> Inl e
                             | Inr moves \<Rightarrow>
                                 Inr ((rule_id,
                                       [(''destination'', PStr ''before''),
                                        (''rulebase'', PStr position),
                                        (''destination_rule'', destination_rule_id)]) # moves))))
                else prepare_moves current_order ids position (next_name # rest))))"
| "prepare_moves current_order ids position desired_order = Inr []"

text \<open>
  Lines 186 to 193. The moves are posted in the order of submission (one schedule of the
  thread pool, whose size \<^verbatim>\<open>process_security_rules\<close> sets to 4 before it reorders); all
  of them run before the responses are read. Reading stops at the first
  post that raised or whose response has no \<^verbatim>\<open>status\<close>; a status other than
  \<^verbatim>\<open>success\<close> is only logged.
\<close>

fun post_moves ::
  "'r gateway \<Rightarrow> 'r world \<Rightarrow> string \<Rightarrow> move list \<Rightarrow> 'r world \<times> (error + pydict) list" where
  "post_moves gw w endpoint [] = (w, [])"
| "post_moves gw w endpoint ((rule_id, move_data) # moves) =
     (case api_move gw w endpoint rule_id move_data of
        (w', response) \<Rightarrow>
          (case post_moves gw w' endpoint moves of
             (w'', responses) \<Rightarrow> (w'', response # responses)))"

fun check_responses :: "(error + pydict) list \<Rightarrow> error option" where
  "check_responses [] = None"
| "check_responses (Inl e # responses) = Some e"
| "check_responses (Inr response # responses) =
     (case getitem response ''status'' of
        Inl e \<Rightarrow> Some e
      | Inr _ \<Rightarrow> check_responses responses)"

text \<open>
  The \<^verbatim>\<open>while\<close> loop of lines 167 to 198. It returns the state, the value of
  \<^verbatim>\<open>attempts\<close> and the error raised or the final \<^verbatim>\<open>current_order\<close>.
\<close>

definition max_attempts :: nat where
  "max_attempts = 8"

function reorder_loop ::
  "'r gateway \<Rightarrow> 'r world \<Rightarrow> obj_type \<Rightarrow> string \<Rightarrow> string \<Rightarrow> (pyval \<times> pyval) list \<Rightarrow> string \<Rightarrow> string
     \<Rightarrow> pyval list \<Rightarrow> pyval list \<Rightarrow> nat \<Rightarrow> 'r world \<times> nat \<times> (error + pyval list)" where
  "reorder_loop gw w cls endpoint folder_scope ids limit position desired_order current_order attempts =
     (if \<not> py_eq_list current_order desired_order \<and> attempts < max_attempts then
        (case prepare_moves current_order ids position desired_order of
           Inl e \<Rightarrow> (w, attempts + 1, Inl e)
         | Inr moves \<Rightarrow>
             (if moves = [] then (w, attempts + 1, Inr current_order)
              else
                (case post_moves gw w endpoint moves of
                   (w1, responses) \<Rightarrow>
                     (case check_responses responses of
                        Some e \<Rightarrow> (w1, attempts + 1, Inl e)
                      | None \<Rightarrow>
                          (case get_endpoint cls of
                             Inl e \<Rightarrow> (w1, attempts + 1, Inl e)
                           | Inr ep \<Rightarrow>
                               (case api_get gw w1 (Some ep) folder_scope limit position of
                                  (w2, Inl e) \<Rightarrow> (w2, attempts + 1, Inl e)
                                | (w2, Inr all_current_rules) \<Rightarrow>
                                    (case rules_in_folder all_current_rules folder_scope of
                                       Inl e \<Rightarrow> (w2, attempts + 1, Inl e)
                                     | Inr current_rules \<Rightarrow>
                                         (case rule_names_no_default current_rules of
                                            Inl e \<Rightarrow> (w2, attempts + 1, Inl e)
                                          | Inr current_order' \<Rightarrow>
                                              reorder_loop gw w2 cls endpoint folder_scope ids limit
                                                position desired_order current_order'
                                                (attempts + 1)))))))))
      else (w, attempts, Inr current_order))"
  by pat_completeness auto
termination
  by (relation "measure (\<lambda>(gw, w, cls, endpoint, folder_scope, ids, limit, position,
        desired_order, current_order, attempts). max_attempts - attempts)") auto

declare reorder_loop.simps [simp del]

text \<open>\<^verbatim>\<open>reorder_rules\<close>, lines 146 to 198; it has no \<^verbatim>\<open>return\<close> statement.\<close>

definition reorder_rules ::
  "'r gateway \<Rightarrow> 'r world \<Rightarrow> obj_type \<Rightarrow> string \<Rightarrow> string \<Rightarrow> pydict list \<Rightarrow> pydict list \<Rightarrow> string \<Rightarrow> string
     \<Rightarrow> 'r world \<times> (error + pyval)" where
  "reorder_rules gw w cls endpoint folder_scope original_rules current_rules limit position =
     (case rule_ids current_rules [] of
        Inl e \<Rightarrow> (w, Inl e)
      | Inr current_rule_ids \<Rightarrow>
          (case rule_names current_rules of
             Inl e \<Rightarrow> (w, Inl e)
           | Inr current_order \<Rightarrow>
               (case desired_present original_rules current_rule_ids of
                  Inl e \<Rightarrow> (w, Inl e)
                | Inr desired_order \<Rightarrow>
                    (case reorder_loop gw w cls endpoint folder_scope current_rule_ids limit position
                            desired_order current_order 0 of
                       (w', attempts, Inl e) \<Rightarrow> (w', Inl e)
                     | (w', attempts, Inr final_order) \<Rightarrow> (w', Inr PNone)))))"

text \<open>
  \<^verbatim>\<open>check_and_reorder_rules\<close>, lines 200 to 234. The \<^verbatim>\<open>while\<close> loop carries the flag
  \<^verbatim>\<open>rules_in_correct_order\<close>; it terminates because \<^verbatim>\<open>reorder_rules\<close> returns
  \<^verbatim>\<open>None\<close>, which makes the flag true.
\<close>

lemma reorder_rules_result:
  "reorder_rules gw w cls endpoint folder_scope original_rules current_rules limit position = (w', Inr v)
   \<Longrightarrow> v = PNone"
  by (auto simp: reorder_rules_def split: sum.splits prod.splits)

fun py_truthy :: "pyval \<Rightarrow> bool" where
  "py_truthy PNone = False"
| "py_truthy (PBool b) = b"
| "py_truthy (PInt i) = (i \<noteq> 0)"
| "py_truthy (PStr s) = (s \<noteq> [])"
| "py_truthy (PList xs) = (xs \<noteq> [])"
| "py_truthy (PDict d) = (d \<noteq> [])"

function check_and_reorder_loop ::
  "'r gateway \<Rightarrow> 'r world \<Rightarrow> obj_type \<Rightarrow> string \<Rightarrow> pydict list \<Rightarrow> string \<Rightarrow> string \<Rightarrow> bool
     \<Rightarrow> 'r world \<times> (error + unit)" where
  "check_and_reorder_loop gw w cls folder_scope original_rules limit position rules_in_correct_order =
     (if \<not> rules_in_correct_order then
        (case get_endpoint cls of
           Inl e \<Rightarrow> (w, Inl e)
         | Inr ep \<Rightarrow>
             (case api_get gw w (Some ep) folder_scope limit position of
                (w1, Inl e) \<Rightarrow> (w1, Inl e)
              | (w1, Inr all_current_rules) \<Rightarrow>
                  (let endpoint = str_replace ep ''?'' '''' in
                   case rules_in_folder all_current_rules folder_scope of
                     Inl e \<Rightarrow> (w1, Inl e)
                   | Inr current_rules \<Rightarrow>
                       (case rule_names_no_default current_rules of
                          Inl e \<Rightarrow> (w1, Inl e)
                        | Inr current_order \<Rightarrow>
                            (case rule_names_no_default original_rules of
                               Inl e \<Rightarrow> (w1, Inl e)
                             | Inr desired_order \<Rightarrow>
                                 (if \<not> py_eq_list current_order desired_order then
                                    (case reorder_rules gw w1 cls endpoint folder_scope original_rules
                                            current_rules limit position of
                                       (w2, Inl e) \<Rightarrow> (w2, Inl e)
                                     | (w2, Inr moves_made) \<Rightarrow>
                                         check_and_reorder_loop gw w2 cls folder_scope original_rules
                                           limit position (\<not> py_truthy moves_made))
                                  else
                                    check_and_reorder_loop gw w1 cls folder_scope original_rules
                                      limit position True))))))
      else (w, Inr ()))"
  by pat_completeness auto
termination
  by (relation "measure (\<lambda>(gw, w, cls, folder_scope, original_rules, limit, position,
        rules_in_correct_order). if rules_in_correct_order then 0 else 1)")
     (auto dest: reorder_rules_result [OF sym])

declare check_and_reorder_loop.simps [simp del]

definition check_and_reorder_rules ::
  "'r gateway \<Rightarrow> 'r world \<Rightarrow> obj_type \<Rightarrow> string \<Rightarrow> pydict list \<Rightarrow> string \<Rightarrow> string
     \<Rightarrow> 'r world \<times> (error + unit)" where
  "check_and_reorder_rules gw w cls folder_scope original_rules limit position =
     check_and_reorder_loop gw w cls folder_scope original_rules limit position False"

text \<open>\<^verbatim>\<open>RuleProcessor.is_rule_order_correct\<close>, lines 237 to 249.\<close>

definition is_rule_order_correct :: "pydict list \<Rightarrow> pydict list \<Rightarrow> error + bool" where
  "is_rule_order_correct current_rules desired_rules =
     (case rule_names current_rules of
        Inl e \<Rightarrow> Inl e
      | Inr current_rule_names \<Rightarrow>
          (case rule_names desired_rules of
             Inl e \<Rightarrow> Inl e
           | Inr desired_rule_names \<Rightarrow> Inr (py_eq_list current_rule_names desired_rule_names)))"

section \<open>Fetching and classifying objects\<close>

text \<open>
  \<^verbatim>\<open>fetch_objects\<close>, lines 272 to 276, and \<^verbatim>\<open>get_current_objects\<close>, lines 303 to 319, as
  \<^verbatim>\<open>process_objects\<close> calls it (no keyword arguments, so the position is empty). The
  fetches run in the order of \<^verbatim>\<open>obj_types\<close>; a fetch that raises is logged and its type
  is left out of the result.
\<close>

definition fetch_objects ::
  "'r gateway \<Rightarrow> 'r world \<Rightarrow> string \<Rightarrow> obj_type \<Rightarrow> string \<Rightarrow> string \<Rightarrow> 'r world \<times> (error + pyval list)" where
  "fetch_objects gw w folder_scope cls limit position =
     api_get gw w (endpoint_of cls) folder_scope limit position"

fun get_current_objects_loop ::
  "'r gateway \<Rightarrow> 'r world \<Rightarrow> string \<Rightarrow> obj_type list \<Rightarrow> string \<Rightarrow> (obj_type \<times> pyval list) list
     \<Rightarrow> 'r world \<times> (obj_type \<times> pyval list) list" where
  "get_current_objects_loop gw w folder_scope [] limit results = (w, results)"
| "get_current_objects_loop gw w folder_scope (cls # obj_types) limit results =
     (case fetch_objects gw w folder_scope cls limit '''' of
        (w', Inr data) \<Rightarrow>
          get_current_objects_loop gw w' folder_scope obj_types limit (dict_set results cls data)
      | (w', Inl e) \<Rightarrow> get_current_objects_loop gw w' folder_scope obj_types limit results)"

definition get_current_objects ::
  "'r gateway \<Rightarrow> 'r world \<Rightarrow> string \<Rightarrow> obj_type list \<Rightarrow> string
     \<Rightarrow> 'r world \<times> (obj_type \<times> pyval list) list" where
  "get_current_objects gw w folder_scope obj_types limit =
     get_current_objects_loop gw w folder_scope obj_types limit []"

text \<open>
  \<^verbatim>\<open>get_new_and_updated_entries\<close>, lines 321 to 355.
  \<^item> \<open>current_names_of\<close>: \<^verbatim>\<open>set(o['name'] for o in current_set if isinstance(o, dict))\<close>
  \<^item> \<open>find_existing\<close>: \<^verbatim>\<open>next(o for o in current_set if o['name'] == name)\<close>
  \<^item> \<open>dict_append\<close>: \<^verbatim>\<open>d.setdefault(k, []).append(x)\<close>
  \<^item> \<open>classify_parsed\<close>: the loop over \<^verbatim>\<open>parsed_data[parsed_data_key]\<close>
  \<^item> \<open>get_new_and_updated_loop\<close>: the loop over \<^verbatim>\<open>current_objects.keys()\<close>
\<close>

definition generate_key_name :: "string \<Rightarrow> string" where
  "generate_key_name entry_type_name = str_replace entry_type_name '' '' ''-''"

fun current_names_of :: "pyval list \<Rightarrow> error + pyval list" where
  "current_names_of [] = Inr []"
| "current_names_of (obj # current_set) =
     (case obj of
        PDict d \<Rightarrow>
          (case getitem d ''name'' of
             Inl e \<Rightarrow> Inl e
           | Inr n \<Rightarrow>
               (if \<not> hashable n then Inl TypeError
                else (case current_names_of current_set of
                        Inl e \<Rightarrow> Inl e
                      | Inr ns \<Rightarrow> Inr (n # ns))))
      | _ \<Rightarrow> current_names_of current_set)"

fun find_existing :: "pyval list \<Rightarrow> pyval \<Rightarrow> error + pydict" where
  "find_existing [] name = Inl StopIteration"
| "find_existing (obj # current_set) name =
     (case obj of
        PDict d \<Rightarrow>
          (case getitem d ''name'' of
             Inl e \<Rightarrow> Inl e
           | Inr n \<Rightarrow> (if py_eq n name then Inr d else find_existing current_set name))
      | _ \<Rightarrow> Inl TypeError)"

definition dict_append :: "('k \<times> 'v list) list \<Rightarrow> 'k \<Rightarrow> 'v \<Rightarrow> ('k \<times> 'v list) list" where
  "dict_append d k x =
     (case map_of d k of
        None \<Rightarrow> d @ [(k, [x])]
      | Some xs \<Rightarrow> dict_set d k (xs @ [x]))"

type_synonym entries = "(string \<times> pydict list) list"

fun classify_parsed ::
  "string \<Rightarrow> pyval list \<Rightarrow> pyval list \<Rightarrow> pydict list \<Rightarrow> entries \<times> entries \<Rightarrow> error + entries \<times> entries" where
  "classify_parsed entry_type_name current_set current_names [] (new_entries, updated_entries) =
     Inr (new_entries, updated_entries)"
| "classify_parsed entry_type_name current_set current_names (parsed_obj # parsed)
     (new_entries, updated_entries) =
     (case getitem parsed_obj ''name'' of
        Inl e \<Rightarrow> Inl e
      | Inr name \<Rightarrow>
          (if \<not> hashable name then Inl TypeError
           else if \<not> list_ex (\<lambda>n. py_eq n name) current_names then
             classify_parsed entry_type_name current_set current_names parsed
               (dict_append new_entries entry_type_name parsed_obj, updated_entries)
           else
             (case find_existing current_set name of
                Inl e \<Rightarrow> Inl e
              | Inr existing_obj \<Rightarrow>
                  (let parsed_obj_with_id = dict_set parsed_obj ''id'' (dict_get existing_obj ''id'') in
                   case needs_update parsed_obj_with_id existing_obj of
                     Inl e \<Rightarrow> Inl e
                   | Inr True \<Rightarrow>
                       classify_parsed entry_type_name current_set current_names parsed
                         (new_entries, dict_append updated_entries entry_type_name parsed_obj_with_id)
                   | Inr False \<Rightarrow>
                       classify_parsed entry_type_name current_set current_names parsed
                         (new_entries, updated_entries)))))"

fun get_new_and_updated_loop ::
  "(string \<times> pydict list) list \<Rightarrow> (obj_type \<times> pyval list) list \<Rightarrow> entries \<times> entries
     \<Rightarrow> error + entries \<times> entries" where
  "get_new_and_updated_loop parsed_data [] acc = Inr acc"
| "get_new_and_updated_loop parsed_data ((cls, current_set) # current_objects) acc =
     (let entry_type_name = type_name cls;
          parsed_data_key = generate_key_name entry_type_name
      in case map_of parsed_data parsed_data_key of
           Some parsed \<Rightarrow>
             (case current_names_of current_set of
                Inl e \<Rightarrow> Inl e
              | Inr current_names \<Rightarrow>
                  (case classify_parsed entry_type_name current_set current_names parsed acc of
                     Inl e \<Rightarrow> Inl e
                   | Inr acc' \<Rightarrow> get_new_and_updated_loop parsed_data current_objects acc'))
         | None \<Rightarrow> get_new_and_updated_loop parsed_data current_objects acc)"

definition get_new_and_updated_entries ::
  "(string \<times> pydict list) list \<Rightarrow> (obj_type \<times> pyval list) list \<Rightarrow> error + entries \<times> entries" where
  "get_new_and_updated_entries parsed_data current_objects =
     get_new_and_updated_loop parsed_data current_objects ([], [])"

section \<open>A remote for the examples\<close>

text \<open>
  Modelled from the spec: the remote service behind the gateway, which is no part of
  \<^verbatim>\<open>scm/process.py\<close>. It holds the list of records. Its get returns every record
  whatever the requested folder (the filter on \<^verbatim>\<open>folder\<close> is the caller's), its post
  creates a record unless the name exists and answers with the message
  "Object processed" for a creation, and its move primitive relocates the rule
  immediately before the destination rule.
\<close>

definition has_id :: "pyval \<Rightarrow> pyval \<Rightarrow> bool" where
  "has_id i rule = (case rule of PDict d \<Rightarrow> py_eq (dict_get d ''id'') i | _ \<Rightarrow> False)"

definition move_before :: "pyval \<Rightarrow> pyval \<Rightarrow> pyval list \<Rightarrow> pyval list" where
  "move_before rule_id destination_rule_id rules =
     (case find (has_id rule_id) rules of
        None \<Rightarrow> rules
      | Some rule \<Rightarrow>
          (let others = filter (\<lambda>r. \<not> has_id rule_id r) rules in
           if list_ex (has_id destination_rule_id) others
           then takeWhile (\<lambda>r. \<not> has_id destination_rule_id r) others @
                rule # dropWhile (\<lambda>r. \<not> has_id destination_rule_id r) others
           else rules))"

definition has_name :: "pyval \<Rightarrow> pyval \<Rightarrow> bool" where
  "has_name n r = (case r of PDict d \<Rightarrow> py_eq (dict_get d ''name'') n | _ \<Rightarrow> False)"

definition list_remote :: "(pyval list) gateway" where
  "list_remote =
     \<lparr>gw_get = (\<lambda>r endpoint folder limit position. (r, Inr r)),
      gw_post = (\<lambda>r endpoint data.
        if list_ex (has_name (dict_get data ''name'')) r
        then (r, Inr [(''status'', PStr ''success''), (''message'', PStr ''Object already exists''),
                      (''name'', dict_get data ''name'')])
        else (r @ [PDict data],
              Inr [(''status'', PStr ''success''), (''message'', PStr ''Object processed''),
                   (''name'', dict_get data ''name'')])),
      gw_move = (\<lambda>r endpoint rule_id move_data.
        (move_before rule_id (dict_get move_data ''destination_rule'') r,
         Inr [(''status'', PStr ''success'')]))\<rparr>"

text \<open>
  Modelled from the spec: the same remote, except that its post answers the name
  \<^verbatim>\<open>bad\<close> with the status "error creating object" and raises on the name \<^verbatim>\<open>boom\<close>.
\<close>

definition refusing_remote :: "(pyval list) gateway" where
  "refusing_remote =
     list_remote\<lparr>gw_post := (\<lambda>r endpoint data.
        if dict_get data ''name'' = PStr ''bad''
        then (r, Inr [(''status'', PStr ''error creating object''), (''message'', PStr ''refused''),
                      (''name'', PStr ''bad'')])
        else if dict_get data ''name'' = PStr ''boom'' then (r, Inl (Raised ''timeout''))
        else gw_post list_remote r endpoint data)\<rparr>"

text \<open>
  A rule as the remote returns it (name, id, folder), a desired rule with its name only,
  and the state before any call.
\<close>

definition rule_record :: "string \<Rightarrow> string \<Rightarrow> string \<Rightarrow> pydict" where
  "rule_record n i f = [(''name'', PStr n), (''id'', PStr i), (''folder'', PStr f)]"

definition start_world :: "'r \<Rightarrow> 'r world" where
  "start_world r = \<lparr>remote = r, calls = [], log = []\<rparr>"

definition named :: "string \<Rightarrow> pydict" where
  "named n = [(''name'', PStr n)]"

text \<open>The classes \<^verbatim>\<open>SecurityRule\<close> and \<^verbatim>\<open>Address\<close> of \<^verbatim>\<open>scm/obj.py\<close>.\<close>

definition security_rule :: obj_type where
  "security_rule = \<lparr>type_name = ''SecurityRule'', endpoint_of = Some ''/sse/config/v1/security-rules?''\<rparr>"

definition address :: obj_type where
  "address = \<lparr>type_name = ''Address'', endpoint_of = Some ''/sse/config/v1/addresses?''\<rparr>"

section \<open>Properties of the diff engine\<close>

lemma getitem_Some: "map_of d k = Some v \<Longrightarrow> getitem d k = Inr v"
  by (simp add: getitem_def)


lemma map_of_filter_name:
  "map_of (filter (\<lambda>item. fst item = k \<or> P item) d) k = map_of d k"
  by (induction d) auto

definition field_differs ::
  "(pyval \<Rightarrow> pyval \<Rightarrow> error + bool) \<Rightarrow> pydict \<Rightarrow> string \<times> pyval \<Rightarrow> bool" where
  "field_differs cmp current_object item =
     (fst item \<noteq> ''name'' \<and> cmp (snd item) (dict_get current_object (fst item)) = Inr True)"

definition raising_as_no_difference ::
  "(pyval \<Rightarrow> pyval \<Rightarrow> error + bool) \<Rightarrow> pyval \<Rightarrow> pyval \<Rightarrow> error + bool" where
  "raising_as_no_difference cmp value1 value2 =
     (case cmp value1 value2 of Inl e \<Rightarrow> Inr False | Inr b \<Rightarrow> Inr b)"

lemma needs_update_items_result:
  assumes "map_of new_object ''name'' = Some n"
  shows "needs_update_items cmp new_object items current_object
         = Inr (list_ex (field_differs cmp current_object) items)"
proof (induction items)
  case Nil
  from assms show ?case by (simp add: getitem_Some)
next
  case (Cons item items)
  obtain key v where item: "item = (key, v)" by (cases item)
  show ?case
  proof (cases "key = ''name''")
    case True
    with Cons item show ?thesis by (simp add: field_differs_def)
  next
    case False
    show ?thesis
    proof (cases "cmp v (dict_get current_object key)")
      case (Inl e)
      with Cons item False assms show ?thesis
        by (simp add: field_differs_def getitem_Some)
    next
      case (Inr b)
      with Cons item False assms show ?thesis
        by (cases b) (simp_all add: field_differs_def getitem_Some)
    qed
  qed
qed

lemma field_differs_no_raise:
  "field_differs (raising_as_no_difference cmp) current_object item
   = field_differs cmp current_object item"
  by (auto simp: field_differs_def raising_as_no_difference_def split: sum.splits)

lemma list_ex_without_raising:
  "list_ex (field_differs cmp current_object)
     (filter (\<lambda>item. fst item = ''name'' \<or> \<not> comparison_raises cmp current_object item) items)
   = list_ex (field_differs cmp current_object) items"
  by (induction items) (auto simp: field_differs_def comparison_raises_def)

text \<open>
  C9. When \<^verbatim>\<open>new_object\<close> has a name, \<^verbatim>\<open>needs_update\<close> never raises, whatever the
  comparison of a field raises: it returns \<open>True\<close> exactly when the current object is
  not empty and some field other than \<^verbatim>\<open>name\<close> has a comparison that returns \<open>True\<close>.
  A field whose comparison raises therefore counts as no difference and the remaining
  fields are still compared: the result is the one obtained when every raising
  comparison is replaced by "no difference", and the one obtained on the record without
  the raising fields.
\<close>

theorem needs_update_comparison_error_skipped:
  assumes "map_of new_object ''name'' = Some n"
  shows "needs_update_with cmp new_object current_object
           = Inr (current_object \<noteq> [] \<and> list_ex (field_differs cmp current_object) new_object) \<and>
         needs_update_with (raising_as_no_difference cmp) new_object current_object
           = needs_update_with cmp new_object current_object \<and>
         needs_update_with cmp (without_raising_fields cmp new_object current_object)
           current_object = needs_update_with cmp new_object current_object"
proof -
  let ?other = "without_raising_fields cmp new_object current_object"
  have other: "map_of ?other ''name'' = Some n"
    using assms by (simp add: without_raising_fields_def map_of_filter_name)
  have 1: "needs_update_with cmp new_object current_object
           = Inr (current_object \<noteq> [] \<and> list_ex (field_differs cmp current_object) new_object)"
    using assms
    by (simp add: needs_update_with_def needs_update_items_result [OF assms] getitem_Some)
  have 2: "needs_update_with (raising_as_no_difference cmp) new_object current_object
           = Inr (current_object \<noteq> [] \<and> list_ex (field_differs cmp current_object) new_object)"
    using assms
    by (simp add: needs_update_with_def needs_update_items_result [OF assms] getitem_Some
        field_differs_no_raise [abs_def])
  have 3: "needs_update_with cmp ?other current_object
           = Inr (current_object \<noteq> [] \<and> list_ex (field_differs cmp current_object) new_object)"
  proof -
    have "list_ex (field_differs cmp current_object) ?other
          = list_ex (field_differs cmp current_object) new_object"
      by (simp add: without_raising_fields_def list_ex_without_raising)
    then show ?thesis
      using getitem_Some [OF other]
      by (cases "current_object = []")
        (auto simp: needs_update_with_def needs_update_items_result [OF other])
  qed
  from 1 2 3 show ?thesis by simp
qed

theorem needs_update_comparison_error_skipped_witness:
  "map_of [(''name'', PStr ''r1''), (''a'', PStr ''boom'')] ''name'' = Some (PStr ''r1'') \<and>
   map_of [(''name'', PStr ''r1''), (''a'', PStr ''boom''), (''b'', PInt 1)] ''name''
     = Some (PStr ''r1'') \<and>
   needs_update_with
     (\<lambda>value1 value2. if value1 = PStr ''boom'' then Inl (Raised ''boom'')
        else Inr (deep_compare value1 value2))
     [(''name'', PStr ''r1''), (''a'', PStr ''boom'')]
     [(''name'', PStr ''r1''), (''a'', PStr ''x'')] = Inr False \<and>
   needs_update_with
     (\<lambda>value1 value2. if value1 = PStr ''boom'' then Inl (Raised ''boom'')
        else Inr (deep_compare value1 value2))
     [(''name'', PStr ''r1''), (''a'', PStr ''boom''), (''b'', PInt 1)]
     [(''name'', PStr ''r1''), (''a'', PStr ''x''), (''b'', PInt 1)] = Inr False \<and>
   needs_update_with
     (\<lambda>value1 value2. if value1 = PStr ''boom'' then Inl (Raised ''boom'')
        else Inr (deep_compare value1 value2))
     [(''name'', PStr ''r1''), (''a'', PStr ''boom''), (''b'', PInt 1)]
     [(''name'', PStr ''r1''), (''a'', PStr ''x''), (''b'', PInt 2)] = Inr True \<and>
   without_raising_fields
     (\<lambda>value1 value2. if value1 = PStr ''boom'' then Inl (Raised ''boom'')
        else Inr (deep_compare value1 value2))
     [(''name'', PStr ''r1''), (''a'', PStr ''boom''), (''b'', PInt 1)]
     [(''name'', PStr ''r1''), (''a'', PStr ''x''), (''b'', PInt 2)]
   = [(''name'', PStr ''r1''), (''b'', PInt 1)]"
  using needs_update_comparison_error_skipped
    [of "[(''name'', PStr ''r1''), (''a'', PStr ''boom'')]" "PStr ''r1''"
        "\<lambda>value1 value2. if value1 = PStr ''boom'' then Inl (Raised ''boom'')
           else Inr (deep_compare value1 value2)"
        "[(''name'', PStr ''r1''), (''a'', PStr ''x'')]"]
    needs_update_comparison_error_skipped
    [of "[(''name'', PStr ''r1''), (''a'', PStr ''boom''), (''b'', PInt 1)]" "PStr ''r1''"
        "\<lambda>value1 value2. if value1 = PStr ''boom'' then Inl (Raised ''boom'')
           else Inr (deep_compare value1 value2)"
        "[(''name'', PStr ''r1''), (''a'', PStr ''x''), (''b'', PInt 1)]"]
    needs_update_comparison_error_skipped
    [of "[(''name'', PStr ''r1''), (''a'', PStr ''boom''), (''b'', PInt 1)]" "PStr ''r1''"
        "\<lambda>value1 value2. if value1 = PStr ''boom'' then Inl (Raised ''boom'')
           else Inr (deep_compare value1 value2)"
        "[(''name'', PStr ''r1''), (''a'', PStr ''x''), (''b'', PInt 2)]"]
  by (simp add: field_differs_def dict_get_def deep_compare.simps(1) without_raising_fields_def
      comparison_raises_def)

text \<open>
  C4. The first test of \<^verbatim>\<open>deep_compare\<close> is \<^verbatim>\<open>value1 == []\<close> (and \<^verbatim>\<open>value2 == []\<close>),
  which an empty list passes and an empty dictionary does not, although the comment
  above it reads "empty list/dict". An empty list against an absent field is no
  difference and a non-empty list is one; an empty dictionary against an absent field
  is reported as a difference, in both directions.
\<close>

theorem needs_update_empty_against_absent:
  "needs_update [(''name'', n), (''a'', PList [])] [(''name'', n)] = Inr False \<and>
   needs_update [(''name'', n), (''a'', PNone)] [(''name'', n), (''a'', PList [])] = Inr False \<and>
   needs_update [(''name'', n), (''a'', PList [PInt 1])] [(''name'', n)] = Inr True \<and>
   needs_update [(''name'', n), (''a'', PDict [])] [(''name'', n)] = Inr True \<and>
   needs_update [(''name'', n), (''a'', PNone)] [(''name'', n), (''a'', PDict [])] = Inr True"
  by (simp add: needs_update_def needs_update_with_def getitem_def dict_get_def
      deep_compare.simps(1))

section \<open>Properties of the apply pipeline\<close>

text \<open>
  The status and message contract of the gateway's post, in the words of the
  specification.
\<close>

definition follows_contract :: "pydict \<Rightarrow> bool" where
  "follows_contract result =
     (has_key result ''status'' \<and> has_key result ''message'' \<and> has_key result ''name'')"

definition is_created :: "pydict \<Rightarrow> bool" where
  "is_created result =
     (dict_get result ''status'' = PStr ''success'' \<and>
      dict_get result ''message'' = PStr ''Object processed'')"

definition is_existing :: "pydict \<Rightarrow> bool" where
  "is_existing result =
     (dict_get result ''status'' = PStr ''success'' \<and>
      dict_get result ''message'' \<noteq> PStr ''Object processed'')"

definition is_failed :: "pydict \<Rightarrow> bool" where
  "is_failed result = (dict_get result ''status'' = PStr ''error creating object'')"

lemma py_eq_PStr [simp]: "py_eq v (PStr s) = (v = PStr s)"
  by (cases v) auto

lemma analyze_results_loop_counts:
  "list_all follows_contract results \<Longrightarrow>
   analyze_results_loop results (created_count, exists_count, error_count, error_objects) =
     (created_count + length (filter is_created results),
      exists_count + length (filter is_existing results),
      error_count + length (filter is_failed results),
      error_objects @ map (\<lambda>result. dict_get result ''name'') (filter is_failed results))"
proof (induction results arbitrary: created_count exists_count error_count error_objects)
  case Nil
  then show ?case by simp
next
  case (Cons result results)
  then show ?case
    by (simp add: follows_contract_def is_created_def is_existing_def is_failed_def)
qed

text \<open>
  C5. On results that carry the three keys of the gateway's contract (\<^verbatim>\<open>status\<close>,
  \<^verbatim>\<open>message\<close>, \<^verbatim>\<open>name\<close>), \<^verbatim>\<open>analyze_results\<close> returns exactly four aggregates: the
  number of results with status "success" and message "Object processed" (created), the
  number with status "success" and any other message (already existed), the number with
  status "error creating object" (failed), and the names of the failed results in order.
\<close>

theorem analyze_results_classifies:
  assumes "list_all follows_contract results"
  shows "analyze_results results =
           (length (filter is_created results),
            length (filter is_existing results),
            length (filter is_failed results),
            map (\<lambda>result. dict_get result ''name'') (filter is_failed results))"
  using analyze_results_loop_counts [OF assms, of 0 0 0 "[]"]
  by (simp add: analyze_results_def)

theorem analyze_results_classifies_witness:
  "list_all follows_contract
     [[(''status'', PStr ''success''), (''message'', PStr ''Object processed''), (''name'', PStr ''r1'')],
      [(''status'', PStr ''success''), (''message'', PStr ''Object already exists''), (''name'', PStr ''r2'')],
      [(''status'', PStr ''error creating object''), (''message'', PStr ''bad''), (''name'', PStr ''r3'')]] \<and>
   analyze_results
     [[(''status'', PStr ''success''), (''message'', PStr ''Object processed''), (''name'', PStr ''r1'')],
      [(''status'', PStr ''success''), (''message'', PStr ''Object already exists''), (''name'', PStr ''r2'')],
      [(''status'', PStr ''error creating object''), (''message'', PStr ''bad''), (''name'', PStr ''r3'')]]
    = (1, 1, 1, [PStr ''r3''])"
  using analyze_results_classifies
    [of "[[(''status'', PStr ''success''), (''message'', PStr ''Object processed''), (''name'', PStr ''r1'')],
      [(''status'', PStr ''success''), (''message'', PStr ''Object already exists''), (''name'', PStr ''r2'')],
      [(''status'', PStr ''error creating object''), (''message'', PStr ''bad''), (''name'', PStr ''r3'')]]"]
  by (simp add: follows_contract_def has_key_def is_created_def is_existing_def is_failed_def dict_get_def)

definition is_summary :: "log_event \<Rightarrow> bool" where
  "is_summary ev = (case ev of LogSummary _ _ _ _ _ _ _ _ \<Rightarrow> True | _ \<Rightarrow> False)"

text \<open>
  The run of the create calls in the words of the specification: \<open>serve\<close> gives the
  remote's state after the posts and the outcome of each, in the order the remote
  serves them; \<open>responses_as_completed\<close> and \<open>lines_as_completed\<close> are the results and
  the log lines in the order of completion; \<open>counts_of\<close> and \<open>summary_of\<close> are the
  returned counts and the summary line for a list of results.
\<close>

fun serve ::
  "'r gateway \<Rightarrow> 'r \<Rightarrow> string \<Rightarrow> pydict list \<Rightarrow> nat list \<Rightarrow> 'r \<times> (nat \<times> (error + pydict)) list" where
  "serve gw r endpoint entries [] = (r, [])"
| "serve gw r endpoint entries (i # run_order) =
     (case gw_post gw r endpoint (entries ! i) of
        (r', outcome) \<Rightarrow>
          (case serve gw r' endpoint entries run_order of
             (r'', outcomes) \<Rightarrow> (r'', (i, outcome) # outcomes)))"

definition responses_as_completed ::
  "(nat \<times> (error + pydict)) list \<Rightarrow> nat list \<Rightarrow> pydict list" where
  "responses_as_completed outcomes completion_order =
     concat (map (\<lambda>i. case map_of outcomes i of Some (Inr response) \<Rightarrow> [response] | _ \<Rightarrow> [])
               completion_order)"

definition lines_as_completed ::
  "(nat \<times> (error + pydict)) list \<Rightarrow> nat list \<Rightarrow> log_event list" where
  "lines_as_completed outcomes completion_order =
     concat (map (\<lambda>i. case map_of outcomes i of
                         Some (Inr response) \<Rightarrow> [LogResponse response]
                       | Some (Inl e) \<Rightarrow> [LogPostError e]
                       | None \<Rightarrow> [])
               completion_order)"

definition counts_of :: "pydict list \<Rightarrow> nat \<times> nat \<times> nat" where
  "counts_of results =
     (case analyze_results results of
        (created_count, exists_count, error_count, error_objects) \<Rightarrow>
          (created_count, exists_count, error_count))"

definition summary_of :: "string \<Rightarrow> nat \<Rightarrow> pydict list \<Rightarrow> real \<Rightarrow> log_event" where
  "summary_of message initial_count results elapsed =
     (case analyze_results results of
        (created_count, exists_count, error_count, error_objects) \<Rightarrow>
          LogSummary message created_count exists_count error_count initial_count
            (int initial_count - (int created_count + int exists_count)) error_objects elapsed)"

definition is_order :: "nat \<Rightarrow> nat list \<Rightarrow> bool" where
  "is_order n order = (distinct order \<and> set order = {0..<n})"

lemma run_posts_serve:
  "\<forall>i \<in> set run_order. i < length entries \<Longrightarrow>
   run_posts gw w endpoint entries run_order outcomes =
     (w\<lparr>remote := fst (serve gw (remote w) endpoint entries run_order),
        calls := calls w @ map (\<lambda>i. PostCall endpoint (entries ! i)) run_order\<rparr>,
      outcomes @ snd (serve gw (remote w) endpoint entries run_order))"
proof (induction run_order arbitrary: w outcomes)
  case Nil
  then show ?case by simp
next
  case (Cons i run_order)
  obtain r' outcome where p: "gw_post gw (remote w) endpoint (entries ! i) = (r', outcome)"
    by (cases "gw_post gw (remote w) endpoint (entries ! i)")
  obtain r'' rest where s: "serve gw r' endpoint entries run_order = (r'', rest)"
    by (cases "serve gw r' endpoint entries run_order")
  from Cons.prems have i: "i < length entries" and rest: "\<forall>i \<in> set run_order. i < length entries"
    by simp_all
  show ?case
    using i p s Cons.IH [OF rest] by (simp add: api_post_def)
qed

lemma collect_results_eq:
  "collect_results w outcomes completion_order results =
     (w\<lparr>log := log w @ lines_as_completed outcomes completion_order\<rparr>,
      results @ responses_as_completed outcomes completion_order)"
proof (induction completion_order arbitrary: w results)
  case Nil
  then show ?case by (simp add: lines_as_completed_def responses_as_completed_def)
next
  case (Cons i completion_order)
  show ?case
  proof (cases "map_of outcomes i")
    case None
    with Cons show ?thesis
      by (simp add: lines_as_completed_def responses_as_completed_def)
  next
    case (Some outcome)
    with Cons show ?thesis
      by (cases outcome)
        (simp_all add: lines_as_completed_def responses_as_completed_def emit_def)
  qed
qed

lemma lines_as_completed_no_summary:
  "filter is_summary (lines_as_completed outcomes completion_order) = []"
  by (induction completion_order)
    (auto simp: lines_as_completed_def is_summary_def split: option.splits sum.splits)

lemma summary_of_is_summary: "is_summary (summary_of message n results elapsed)"
  by (simp add: summary_of_def is_summary_def split: prod.splits)

text \<open>
  C8, as amended. With an empty list \<^verbatim>\<open>post_entries\<close> returns \<open>(0, 0, 0)\<close>, leaves the
  remote and the call trace untouched and logs the single line "No entries to process.".
  With a non-empty list, an object type that has an endpoint and a positive worker count,
  whatever the order in which the posts are served and complete, it issues one create
  call per entry, returns the counts of the responses, and logs after
  the lines of the posts exactly one structured summary: these counts (created, already
  existed, failed), the initial count, the names of the failed results and the elapsed
  time between the two readings of the clock.
\<close>

theorem post_entries_summary:
  "(entries = [] \<longrightarrow>
      post_entries gw clock w max_workers folder_scope entries cls extra_query_params
        run_order completion_order
        = (w\<lparr>log := log w @ [LogNoEntries]\<rparr>, Inr (0, 0, 0))) \<and>
   (entries \<noteq> [] \<and> endpoint_of cls = Some ep \<and> 0 < max_workers \<and>
    is_order (length entries) run_order \<longrightarrow>
      (\<exists>r' outcomes results message w'.
         serve gw (remote w) (ep @ extra_query_params @ ''&folder='' @ folder_scope) entries
           run_order = (r', outcomes) \<and>
         results = responses_as_completed outcomes completion_order \<and>
         message = str_replace (str_replace ep ''/sse/config/v1/'' '''') ''?'' '''' \<and>
         w' = w\<lparr>remote := r',
                calls := calls w @
                  map (\<lambda>i. PostCall (ep @ extra_query_params @ ''&folder='' @ folder_scope)
                             (entries ! i)) run_order,
                log := log w @
                  [LogProcessing (length entries) message, LogWorkers max_workers] @
                  lines_as_completed outcomes completion_order @
                  [summary_of message (length entries) results (clock r' - clock (remote w))]\<rparr> \<and>
         post_entries gw clock w max_workers folder_scope entries cls extra_query_params
           run_order completion_order = (w', Inr (counts_of results)) \<and>
         length (filter is_summary (log w')) = Suc (length (filter is_summary (log w)))))"
proof (intro conjI impI)
  assume "entries = []"
  then show "post_entries gw clock w max_workers folder_scope entries cls extra_query_params
        run_order completion_order
        = (w\<lparr>log := log w @ [LogNoEntries]\<rparr>, Inr (0, 0, 0))"
    by (simp add: post_entries_def emit_def)
next
  assume a: "entries \<noteq> [] \<and> endpoint_of cls = Some ep \<and> 0 < max_workers \<and>
    is_order (length entries) run_order"
  let ?endpoint = "ep @ extra_query_params @ ''&folder='' @ folder_scope"
  define message where "message = str_replace (str_replace ep ''/sse/config/v1/'' '''') ''?'' ''''"
  obtain r' outcomes where s: "serve gw (remote w) ?endpoint entries run_order = (r', outcomes)"
    by (cases "serve gw (remote w) ?endpoint entries run_order")
  define results where "results = responses_as_completed outcomes completion_order"
  define w' where "w' = w\<lparr>remote := r',
                calls := calls w @ map (\<lambda>i. PostCall ?endpoint (entries ! i)) run_order,
                log := log w @
                  [LogProcessing (length entries) message, LogWorkers max_workers] @
                  lines_as_completed outcomes completion_order @
                  [summary_of message (length entries) results (clock r' - clock (remote w))]\<rparr>"
  from a have bound: "\<forall>i \<in> set run_order. i < length entries"
    by (simp add: is_order_def)
  let ?w0 = "emit (emit w (LogProcessing (length entries) message)) (LogWorkers max_workers)"
  have rp: "run_posts gw ?w0 ?endpoint entries run_order [] =
     (?w0\<lparr>remote := r',
          calls := calls w @ map (\<lambda>i. PostCall ?endpoint (entries ! i)) run_order\<rparr>, outcomes)"
    using run_posts_serve [OF bound, of gw ?w0 ?endpoint "[]"] s
    by (simp add: emit_def)
  have co: "create_objects gw (emit w (LogProcessing (length entries) message)) max_workers
              folder_scope 0 (ep @ extra_query_params) entries run_order completion_order
            = (w\<lparr>remote := r',
                 calls := calls w @ map (\<lambda>i. PostCall ?endpoint (entries ! i)) run_order,
                 log := log w @
                   [LogProcessing (length entries) message, LogWorkers max_workers] @
                   lines_as_completed outcomes completion_order\<rparr>, Inr results)"
    using a rp
    by (simp add: create_objects_def Let_def collect_results_eq results_def emit_def)
  have pe: "post_entries gw clock w max_workers folder_scope entries cls extra_query_params
           run_order completion_order = (w', Inr (counts_of results))"
    using a co
    by (simp add: post_entries_def get_endpoint_def Let_def message_def [symmetric]
        log_summary_def emit_def w'_def summary_of_def counts_of_def split: prod.splits)
  have cnt: "length (filter is_summary (log w')) = Suc (length (filter is_summary (log w)))"
  proof -
    have "\<not> is_summary (LogWorkers max_workers)"
      "\<not> is_summary (LogProcessing (length entries) message)"
      by (simp_all add: is_summary_def)
    then show ?thesis
      by (simp add: w'_def lines_as_completed_no_summary summary_of_is_summary)
  qed
  show "\<exists>r' outcomes results message w'.
         serve gw (remote w) ?endpoint entries run_order = (r', outcomes) \<and>
         results = responses_as_completed outcomes completion_order \<and>
         message = str_replace (str_replace ep ''/sse/config/v1/'' '''') ''?'' '''' \<and>
         w' = w\<lparr>remote := r',
                calls := calls w @ map (\<lambda>i. PostCall ?endpoint (entries ! i)) run_order,
                log := log w @
                  [LogProcessing (length entries) message, LogWorkers max_workers] @
                  lines_as_completed outcomes completion_order @
                  [summary_of message (length entries) results (clock r' - clock (remote w))]\<rparr> \<and>
         post_entries gw clock w max_workers folder_scope entries cls extra_query_params
           run_order completion_order = (w', Inr (counts_of results)) \<and>
         length (filter is_summary (log w')) = Suc (length (filter is_summary (log w)))"
    using s pe cnt unfolding results_def message_def w'_def by blast
qed

text \<open>
  C8 as stated fails: the early return at lines 43 to 45 comes before the call of
  \<^verbatim>\<open>log_summary\<close>, so the log of a zero-entry invocation holds no summary.
\<close>

theorem post_entries_no_entries_no_summary:
  "\<not> list_ex is_summary
       (log (fst (post_entries list_remote (\<lambda>r. real (length r)) (start_world []) 4 ''Texas'' []
                    address '''' [] [])))"
  by (simp add: post_entries_def emit_def start_world_def is_summary_def)

theorem post_entries_summary_witness:
  "post_entries refusing_remote (\<lambda>r. 2 * real (length r)) (start_world []) 4 ''Texas'' []
     address '''' [] []
     = ((start_world [])\<lparr>log := [LogNoEntries]\<rparr>, Inr (0, 0, 0)) \<and>
   [named ''a1'', named ''bad'', named ''a1'', named ''boom''] \<noteq> [] \<and>
   endpoint_of address = Some ''/sse/config/v1/addresses?'' \<and> (0::int) < 4 \<and>
   is_order (length [named ''a1'', named ''bad'', named ''a1'', named ''boom'']) [2, 0, 1, 3] \<and>
   post_entries refusing_remote (\<lambda>r. 2 * real (length r)) (start_world []) 4 ''Texas''
     [named ''a1'', named ''bad'', named ''a1'', named ''boom''] address '''' [2, 0, 1, 3] [1, 3, 0, 2]
     = (\<lparr>remote = [PDict (named ''a1'')],
         calls =
           [PostCall ''/sse/config/v1/addresses?&folder=Texas'' (named ''a1''),
            PostCall ''/sse/config/v1/addresses?&folder=Texas'' (named ''a1''),
            PostCall ''/sse/config/v1/addresses?&folder=Texas'' (named ''bad''),
            PostCall ''/sse/config/v1/addresses?&folder=Texas'' (named ''boom'')],
         log =
           [LogProcessing 4 ''addresses'', LogWorkers 4,
            LogResponse [(''status'', PStr ''error creating object''), (''message'', PStr ''refused''),
                         (''name'', PStr ''bad'')],
            LogPostError (Raised ''timeout''),
            LogResponse [(''status'', PStr ''success''), (''message'', PStr ''Object already exists''),
                         (''name'', PStr ''a1'')],
            LogResponse [(''status'', PStr ''success''), (''message'', PStr ''Object processed''),
                         (''name'', PStr ''a1'')],
            LogSummary ''addresses'' 1 1 1 4 2 [PStr ''bad''] 2]\<rparr>,
        Inr (1, 1, 1))"
proof -
  have order: "is_order (length [named ''a1'', named ''bad'', named ''a1'', named ''boom''])
                 [2, 0, 1, 3]"
    by (auto simp: is_order_def)
  have empty: "post_entries refusing_remote (\<lambda>r. 2 * real (length r)) (start_world []) 4 ''Texas'' []
     address '''' [] []
     = ((start_world [])\<lparr>log := [LogNoEntries]\<rparr>, Inr (0, 0, 0))"
    using post_entries_summary
      [of "[]" refusing_remote "\<lambda>r. 2 * real (length r)" "start_world []" 4 "''Texas''" address
         "''''" "[]" "[]"]
    by (simp add: start_world_def)
  have ep: "endpoint_of address = Some ''/sse/config/v1/addresses?''"
    by (simp add: address_def)
  have h: "[named ''a1'', named ''bad'', named ''a1'', named ''boom''] \<noteq> [] \<and>
           endpoint_of address = Some ''/sse/config/v1/addresses?'' \<and> (0::int) < 4 \<and>
           is_order (length [named ''a1'', named ''bad'', named ''a1'', named ''boom''])
             [2, 0, 1, 3]"
    using order ep by simp
  note t = post_entries_summary
    [where entries = "[named ''a1'', named ''bad'', named ''a1'', named ''boom'']"
       and ep = "''/sse/config/v1/addresses?''" and cls = address and max_workers = 4
       and run_order = "[2, 0, 1, 3]" and gw = refusing_remote and w = "start_world []"
       and extra_query_params = "''''" and folder_scope = "''Texas''"
       and completion_order = "[1, 3, 0, 2]" and clock = "\<lambda>r. 2 * real (length r)",
     THEN conjunct2, rule_format, OF h]
  have full: "post_entries refusing_remote (\<lambda>r. 2 * real (length r)) (start_world []) 4 ''Texas''
     [named ''a1'', named ''bad'', named ''a1'', named ''boom''] address '''' [2, 0, 1, 3] [1, 3, 0, 2]
     = (\<lparr>remote = [PDict (named ''a1'')],
         calls =
           [PostCall ''/sse/config/v1/addresses?&folder=Texas'' (named ''a1''),
            PostCall ''/sse/config/v1/addresses?&folder=Texas'' (named ''a1''),
            PostCall ''/sse/config/v1/addresses?&folder=Texas'' (named ''bad''),
            PostCall ''/sse/config/v1/addresses?&folder=Texas'' (named ''boom'')],
         log =
           [LogProcessing 4 ''addresses'', LogWorkers 4,
            LogResponse [(''status'', PStr ''error creating object''), (''message'', PStr ''refused''),
                         (''name'', PStr ''bad'')],
            LogPostError (Raised ''timeout''),
            LogResponse [(''status'', PStr ''success''), (''message'', PStr ''Object already exists''),
                         (''name'', PStr ''a1'')],
            LogResponse [(''status'', PStr ''success''), (''message'', PStr ''Object processed''),
                         (''name'', PStr ''a1'')],
            LogSummary ''addresses'' 1 1 1 4 2 [PStr ''bad''] 2]\<rparr>,
        Inr (1, 1, 1))"
    using t
    by (auto simp: start_world_def refusing_remote_def list_remote_def named_def dict_get_def
        has_name_def responses_as_completed_def lines_as_completed_def summary_of_def
        counts_of_def analyze_results_def has_key_def str_replace_def)
  from empty h full show ?thesis by simp
qed

section \<open>Properties of the rule order reconciler\<close>

definition is_get :: "call \<Rightarrow> bool" where
  "is_get c = (case c of GetCall _ _ _ _ \<Rightarrow> True | _ \<Rightarrow> False)"

lemma post_moves_gets:
  "post_moves gw w endpoint moves = (w', responses) \<Longrightarrow>
   filter is_get (calls w') = filter is_get (calls w)"
proof (induction moves arbitrary: w responses)
  case Nil
  then show ?case by simp
next
  case (Cons m moves)
  obtain rule_id move_data where m: "m = (rule_id, move_data)" by (cases m)
  obtain w1 r where mv: "api_move gw w endpoint rule_id move_data = (w1, r)"
    by (cases "api_move gw w endpoint rule_id move_data")
  obtain w2 rs where rest: "post_moves gw w1 endpoint moves = (w2, rs)"
    by (cases "post_moves gw w1 endpoint moves")
  have "filter is_get (calls w1) = filter is_get (calls w)"
    using mv by (auto simp: api_move_def is_get_def split: prod.splits)
  moreover have "post_moves gw w1 endpoint moves = (w', rs)"
    using Cons.prems m mv rest by simp
  ultimately show ?case using Cons.IH by simp
qed

lemma api_get_gets:
  "api_get gw w endpoint folder limit position = (w', res) \<Longrightarrow>
   length (filter is_get (calls w')) = Suc (length (filter is_get (calls w)))"
  by (auto simp: api_get_def is_get_def split: prod.splits)

lemma reorder_loop_bounded:
  "attempts \<le> max_attempts \<Longrightarrow>
   reorder_loop gw w cls endpoint folder_scope ids limit position desired_order current_order attempts
     = (w', attempts', res) \<Longrightarrow>
   attempts' \<le> max_attempts \<and> attempts \<le> attempts' \<and>
   length (filter is_get (calls w')) + attempts \<le> length (filter is_get (calls w)) + attempts'"
proof (induction gw w cls endpoint folder_scope ids limit position desired_order current_order attempts
    rule: reorder_loop.induct)
  case (1 gw w cls endpoint folder_scope ids limit position desired_order current_order attempts)
  show ?case
  proof (cases "\<not> py_eq_list current_order desired_order \<and> attempts < max_attempts")
    case False
    with "1.prems" show ?thesis
      by (simp add: reorder_loop.simps)
  next
    case True
    note loop = True
    show ?thesis
    proof (cases "prepare_moves current_order ids position desired_order")
      case (Inl e)
      with "1.prems" loop show ?thesis
        by (auto simp: reorder_loop.simps)
    next
      case (Inr moves)
      note moves = Inr
      show ?thesis
      proof (cases "moves = []")
        case True
        with "1.prems" loop moves show ?thesis
          by (auto simp: reorder_loop.simps)
      next
        case False
        obtain w1 responses where pm: "post_moves gw w endpoint moves = (w1, responses)"
          by (cases "post_moves gw w endpoint moves")
        have g1: "filter is_get (calls w1) = filter is_get (calls w)"
          using post_moves_gets [OF pm] .
        show ?thesis
        proof (cases "check_responses responses = None \<and> (\<exists>ep. get_endpoint cls = Inr ep)")
          case False
          with "1.prems" loop moves \<open>moves \<noteq> []\<close> pm g1 show ?thesis
            by (subst (asm) reorder_loop.simps) (auto split: option.splits sum.splits)
        next
          case True
          then obtain ep where cr: "check_responses responses = None"
            and ep: "get_endpoint cls = Inr ep" by blast
          obtain w2 got where ag: "api_get gw w1 (Some ep) folder_scope limit position = (w2, got)"
            by (cases "api_get gw w1 (Some ep) folder_scope limit position")
          have g2: "length (filter is_get (calls w2)) = Suc (length (filter is_get (calls w)))"
            using api_get_gets [OF ag] g1 by simp
          show ?thesis
          proof (cases "\<exists>all_current_rules current_rules current_order'.
                    got = Inr all_current_rules \<and>
                    rules_in_folder all_current_rules folder_scope = Inr current_rules \<and>
                    rule_names_no_default current_rules = Inr current_order'")
            case False
            with "1.prems" loop moves \<open>moves \<noteq> []\<close> pm cr ep ag g2 show ?thesis
              by (subst (asm) reorder_loop.simps) (auto split: sum.splits)
          next
            case True
            then obtain all_current_rules current_rules current_order' where
              got: "got = Inr all_current_rules"
              and rf: "rules_in_folder all_current_rules folder_scope = Inr current_rules"
              and rn: "rule_names_no_default current_rules = Inr current_order'"
              by blast
            have rec: "reorder_loop gw w2 cls endpoint folder_scope ids limit position desired_order
                         current_order' (attempts + 1) = (w', attempts', res)"
              using "1.prems"(2) loop moves \<open>moves \<noteq> []\<close> pm cr ep ag got rf rn
              by (subst (asm) reorder_loop.simps) simp
            have "attempts + 1 \<le> max_attempts" using loop by simp
            from "1.IH" [OF loop moves \<open>moves \<noteq> []\<close> pm [symmetric] cr ep ag [symmetric] got
                rf rn this rec]
            show ?thesis using g2 by simp
          qed
        qed
      qed
    qed
  qed
qed

text \<open>
  C2. Whatever the gateway answers, the loop of \<^verbatim>\<open>reorder_rules\<close> started with
  \<^verbatim>\<open>attempts = 0\<close> returns after at most 8 iterations, having re-fetched the rules at
  most 8 times; and an iteration whose move set is empty returns at once, with no call
  to the gateway, although the current order still differs from the desired order.
\<close>

theorem reorder_loop_terminates:
  "(\<exists>w' attempts' res.
      reorder_loop gw w cls endpoint folder_scope ids limit position desired_order current_order 0
        = (w', attempts', res) \<and>
      attempts' \<le> 8 \<and>
      length (filter is_get (calls w')) \<le> length (filter is_get (calls w)) + 8) \<and>
   (\<not> py_eq_list current_order desired_order \<and> attempts < 8 \<and>
    prepare_moves current_order ids position desired_order = Inr [] \<longrightarrow>
      reorder_loop gw w cls endpoint folder_scope ids limit position desired_order current_order
        attempts = (w, attempts + 1, Inr current_order))"
proof (intro conjI impI)
  obtain w' attempts' res where r:
    "reorder_loop gw w cls endpoint folder_scope ids limit position desired_order current_order 0
       = (w', attempts', res)"
    by (cases "reorder_loop gw w cls endpoint folder_scope ids limit position desired_order
                 current_order 0")
  have "attempts' \<le> max_attempts \<and> 0 \<le> attempts' \<and>
        length (filter is_get (calls w')) + 0 \<le> length (filter is_get (calls w)) + attempts'"
    by (rule reorder_loop_bounded [OF _ r]) simp
  then have "attempts' \<le> 8 \<and>
        length (filter is_get (calls w')) \<le> length (filter is_get (calls w)) + 8"
    by (simp add: max_attempts_def)
  with r show "\<exists>w' attempts' res.
      reorder_loop gw w cls endpoint folder_scope ids limit position desired_order current_order 0
        = (w', attempts', res) \<and>
      attempts' \<le> 8 \<and>
      length (filter is_get (calls w')) \<le> length (filter is_get (calls w)) + 8"
    by blast
next
  assume "\<not> py_eq_list current_order desired_order \<and> attempts < 8 \<and>
    prepare_moves current_order ids position desired_order = Inr []"
  then show "reorder_loop gw w cls endpoint folder_scope ids limit position desired_order
               current_order attempts = (w, attempts + 1, Inr current_order)"
    by (simp add: reorder_loop.simps max_attempts_def)
qed

theorem reorder_loop_terminates_witness:
  "\<not> py_eq_list [PStr ''A'', PStr ''B'', PStr ''C''] [PStr ''A'', PStr ''C''] \<and> (0::nat) < 8 \<and>
   prepare_moves [PStr ''A'', PStr ''B'', PStr ''C'']
     [(PStr ''A'', PStr ''1''), (PStr ''B'', PStr ''2''), (PStr ''C'', PStr ''3'')] ''pre''
     [PStr ''A'', PStr ''C''] = Inr [] \<and>
   reorder_loop list_remote
     (start_world (map PDict [rule_record ''A'' ''1'' ''T'', rule_record ''B'' ''2'' ''T'',
        rule_record ''C'' ''3'' ''T'']))
     security_rule ''/sse/config/v1/security-rules'' ''T''
     [(PStr ''A'', PStr ''1''), (PStr ''B'', PStr ''2''), (PStr ''C'', PStr ''3'')] ''10000'' ''pre''
     [PStr ''A'', PStr ''C''] [PStr ''A'', PStr ''B'', PStr ''C''] 0
   = (start_world (map PDict [rule_record ''A'' ''1'' ''T'', rule_record ''B'' ''2'' ''T'',
        rule_record ''C'' ''3'' ''T'']), 1, Inr [PStr ''A'', PStr ''B'', PStr ''C''])"
  using reorder_loop_terminates
    [of list_remote
      "start_world (map PDict [rule_record ''A'' ''1'' ''T'', rule_record ''B'' ''2'' ''T'',
        rule_record ''C'' ''3'' ''T''])"
      security_rule "''/sse/config/v1/security-rules''" "''T''"
      "[(PStr ''A'', PStr ''1''), (PStr ''B'', PStr ''2''), (PStr ''C'', PStr ''3'')]" "''10000''"
      "''pre''" "[PStr ''A'', PStr ''C'']" "[PStr ''A'', PStr ''B'', PStr ''C'']" 0]
  by simp

lemma move_c_before_a:
  assumes "ia \<noteq> ib" "ia \<noteq> ic" "ib \<noteq> ic"
  shows "move_before (PStr ic) (PStr ia)
           [PDict (rule_record a ia s), PDict (rule_record b ib s), PDict (rule_record c ic s)]
         = [PDict (rule_record c ic s), PDict (rule_record a ia s), PDict (rule_record b ib s)]"
  using assms
  by (simp add: move_before_def has_id_def rule_record_def dict_get_def Let_def)

text \<open>
  C1. Against a remote whose move primitive puts the rule right before the destination
  rule, with current order \<open>[a, b, c]\<close> and desired order \<open>[c, a, b]\<close> (three distinct
  names, none the sentinel \<^verbatim>\<open>default\<close>, all present remotely), the loop of
  \<^verbatim>\<open>reorder_rules\<close> ends after one attempt, within the budget of 8, with the final
  current order \<open>[c, a, b]\<close>; the remote holds the rules in that order and
  \<^verbatim>\<open>reorder_rules\<close> returns \<^verbatim>\<open>None\<close>.
\<close>

theorem reorder_abc_to_cab:
  assumes names: "a \<noteq> b" "a \<noteq> c" "b \<noteq> c" "''default'' \<notin> {a, b, c}"
    and ids: "ia \<noteq> ib" "ia \<noteq> ic" "ib \<noteq> ic"
    and ep: "endpoint_of cls \<noteq> None"
  shows "rule_ids [rule_record a ia s, rule_record b ib s, rule_record c ic s] []
           = Inr [(PStr a, PStr ia), (PStr b, PStr ib), (PStr c, PStr ic)] \<and>
         rule_names [rule_record a ia s, rule_record b ib s, rule_record c ic s]
           = Inr [PStr a, PStr b, PStr c] \<and>
         desired_present [named c, named a, named b]
             [(PStr a, PStr ia), (PStr b, PStr ib), (PStr c, PStr ic)]
           = Inr [PStr c, PStr a, PStr b] \<and>
         (\<exists>w'. reorder_loop list_remote
                 (start_world [PDict (rule_record a ia s), PDict (rule_record b ib s), PDict (rule_record c ic s)])
                 cls endpoint s [(PStr a, PStr ia), (PStr b, PStr ib), (PStr c, PStr ic)]
                 limit position [PStr c, PStr a, PStr b] [PStr a, PStr b, PStr c] 0
               = (w', 1, Inr [PStr c, PStr a, PStr b]) \<and>
               remote w' = [PDict (rule_record c ic s), PDict (rule_record a ia s), PDict (rule_record b ib s)]) \<and>
         (1::nat) \<le> max_attempts \<and>
         (\<exists>w'. reorder_rules list_remote
                 (start_world [PDict (rule_record a ia s), PDict (rule_record b ib s), PDict (rule_record c ic s)])
                 cls endpoint s [named c, named a, named b]
                 [rule_record a ia s, rule_record b ib s, rule_record c ic s] limit position
               = (w', Inr PNone) \<and>
               remote w' = [PDict (rule_record c ic s), PDict (rule_record a ia s), PDict (rule_record b ib s)])"
proof -
  from ep obtain e where e: "get_endpoint cls = Inr e"
    by (auto simp: get_endpoint_def)
  have ids_ok: "rule_ids [rule_record a ia s, rule_record b ib s, rule_record c ic s] []
           = Inr [(PStr a, PStr ia), (PStr b, PStr ib), (PStr c, PStr ic)]"
    using names by (simp add: rule_record_def getitem_def hashable_def)
  have names_ok: "rule_names [rule_record a ia s, rule_record b ib s, rule_record c ic s]
           = Inr [PStr a, PStr b, PStr c]"
    by (simp add: rule_record_def getitem_def)
  have desired_ok: "desired_present [named c, named a, named b]
             [(PStr a, PStr ia), (PStr b, PStr ib), (PStr c, PStr ic)]
           = Inr [PStr c, PStr a, PStr b]"
    using names by (simp add: named_def getitem_def hashable_def)
  have moves: "prepare_moves [PStr a, PStr b, PStr c]
                 [(PStr a, PStr ia), (PStr b, PStr ib), (PStr c, PStr ic)] position
                 [PStr c, PStr a, PStr b]
               = Inr [(PStr ic, [(''destination'', PStr ''before''), (''rulebase'', PStr position),
                                 (''destination_rule'', PStr ia)])]"
    using names by (simp add: key_getitem_def)
  have refetch: "rules_in_folder
                   [PDict (rule_record c ic s), PDict (rule_record a ia s), PDict (rule_record b ib s)] s
                 = Inr [rule_record c ic s, rule_record a ia s, rule_record b ib s]"
    by (simp add: rule_record_def getitem_def)
  have order': "rule_names_no_default [rule_record c ic s, rule_record a ia s, rule_record b ib s]
                 = Inr [PStr c, PStr a, PStr b]"
    using names by (auto simp: rule_record_def getitem_def)
  have first: "\<not> py_eq_list [PStr a, PStr b, PStr c] [PStr c, PStr a, PStr b]"
    using names by simp
  define w1 :: "pyval list world" where
    "w1 = \<lparr>remote = [PDict (rule_record c ic s), PDict (rule_record a ia s), PDict (rule_record b ib s)],
           calls = [MoveCall endpoint (PStr ic)
                      [(''destination'', PStr ''before''), (''rulebase'', PStr position),
                       (''destination_rule'', PStr ia)]],
           log = []\<rparr>"
  define w2 where "w2 = w1\<lparr>calls := calls w1 @ [GetCall (Some e) s limit position]\<rparr>"
  have pm: "post_moves list_remote
              (start_world [PDict (rule_record a ia s), PDict (rule_record b ib s), PDict (rule_record c ic s)])
              endpoint
              [(PStr ic, [(''destination'', PStr ''before''), (''rulebase'', PStr position),
                          (''destination_rule'', PStr ia)])]
            = (w1, [Inr [(''status'', PStr ''success'')]])"
    by (simp add: api_move_def list_remote_def start_world_def move_c_before_a [OF ids]
        dict_get_def w1_def)
  have cr: "check_responses [Inr [(''status'', PStr ''success'')]] = None"
    by (simp add: getitem_def)
  have ag: "api_get list_remote w1 (Some e) s limit position
            = (w2, Inr [PDict (rule_record c ic s), PDict (rule_record a ia s),
                        PDict (rule_record b ib s)])"
    by (simp add: api_get_def list_remote_def w1_def w2_def)
  have last_step: "reorder_loop list_remote w2 cls endpoint s
                 [(PStr a, PStr ia), (PStr b, PStr ib), (PStr c, PStr ic)]
                 limit position [PStr c, PStr a, PStr b] [PStr c, PStr a, PStr b] (0 + 1)
               = (w2, 1, Inr [PStr c, PStr a, PStr b])"
    by (subst reorder_loop.simps) simp
  have "reorder_loop list_remote
                 (start_world [PDict (rule_record a ia s), PDict (rule_record b ib s), PDict (rule_record c ic s)])
                 cls endpoint s [(PStr a, PStr ia), (PStr b, PStr ib), (PStr c, PStr ic)]
                 limit position [PStr c, PStr a, PStr b] [PStr a, PStr b, PStr c] 0
               = (w2, 1, Inr [PStr c, PStr a, PStr b])"
    by (subst reorder_loop.simps)
      (simp only: first moves pm cr e ag refetch order' last_step max_attempts_def
        simp_thms if_True if_False sum.case prod.case option.case list.simps zero_less_numeral)
  moreover have "remote w2 = [PDict (rule_record c ic s), PDict (rule_record a ia s), PDict (rule_record b ib s)]"
    by (simp add: w2_def w1_def)
  ultimately have loop: "\<exists>w'. reorder_loop list_remote
                 (start_world [PDict (rule_record a ia s), PDict (rule_record b ib s), PDict (rule_record c ic s)])
                 cls endpoint s [(PStr a, PStr ia), (PStr b, PStr ib), (PStr c, PStr ic)]
                 limit position [PStr c, PStr a, PStr b] [PStr a, PStr b, PStr c] 0
               = (w', 1, Inr [PStr c, PStr a, PStr b]) \<and>
               remote w' = [PDict (rule_record c ic s), PDict (rule_record a ia s), PDict (rule_record b ib s)]"
    by blast
  from loop obtain w' where w':
    "reorder_loop list_remote
       (start_world [PDict (rule_record a ia s), PDict (rule_record b ib s), PDict (rule_record c ic s)])
       cls endpoint s [(PStr a, PStr ia), (PStr b, PStr ib), (PStr c, PStr ic)]
       limit position [PStr c, PStr a, PStr b] [PStr a, PStr b, PStr c] 0
     = (w', 1, Inr [PStr c, PStr a, PStr b])"
    "remote w' = [PDict (rule_record c ic s), PDict (rule_record a ia s), PDict (rule_record b ib s)]"
    by blast
  have "reorder_rules list_remote
                 (start_world [PDict (rule_record a ia s), PDict (rule_record b ib s), PDict (rule_record c ic s)])
                 cls endpoint s [named c, named a, named b]
                 [rule_record a ia s, rule_record b ib s, rule_record c ic s] limit position
               = (w', Inr PNone)"
    by (simp only: reorder_rules_def ids_ok names_ok desired_ok w' sum.case prod.case)
  with w' have "\<exists>w'. reorder_rules list_remote
                 (start_world [PDict (rule_record a ia s), PDict (rule_record b ib s), PDict (rule_record c ic s)])
                 cls endpoint s [named c, named a, named b]
                 [rule_record a ia s, rule_record b ib s, rule_record c ic s] limit position
               = (w', Inr PNone) \<and>
               remote w' = [PDict (rule_record c ic s), PDict (rule_record a ia s), PDict (rule_record b ib s)]"
    by blast
  with ids_ok names_ok desired_ok loop show ?thesis
    by (simp add: max_attempts_def)
qed

theorem reorder_abc_to_cab_witness:
  "''A'' \<noteq> ''B'' \<and> ''A'' \<noteq> ''C'' \<and> ''B'' \<noteq> ''C'' \<and> ''default'' \<notin> {''A'', ''B'', ''C''} \<and>
   ''1'' \<noteq> ''2'' \<and> ''1'' \<noteq> ''3'' \<and> ''2'' \<noteq> ''3'' \<and> endpoint_of security_rule \<noteq> None \<and>
   (\<exists>w'. reorder_loop list_remote
           (start_world [PDict (rule_record ''A'' ''1'' ''T''), PDict (rule_record ''B'' ''2'' ''T''),
              PDict (rule_record ''C'' ''3'' ''T'')])
           security_rule ''/sse/config/v1/security-rules'' ''T''
           [(PStr ''A'', PStr ''1''), (PStr ''B'', PStr ''2''), (PStr ''C'', PStr ''3'')]
           ''10000'' ''pre'' [PStr ''C'', PStr ''A'', PStr ''B''] [PStr ''A'', PStr ''B'', PStr ''C''] 0
         = (w', 1, Inr [PStr ''C'', PStr ''A'', PStr ''B'']) \<and>
         remote w' = [PDict (rule_record ''C'' ''3'' ''T''), PDict (rule_record ''A'' ''1'' ''T''),
                      PDict (rule_record ''B'' ''2'' ''T'')])"
  using reorder_abc_to_cab [of "''A''" "''B''" "''C''" "''1''" "''2''" "''3''" security_rule "''T''"
      "''/sse/config/v1/security-rules''" "''10000''" "''pre''"]
  by (simp add: security_rule_def)

text \<open>
  C10. \<^verbatim>\<open>reorder_rules\<close> returns \<^verbatim>\<open>None\<close> whenever it returns. So when the first pass
  of \<^verbatim>\<open>check_and_reorder_rules\<close> finds the orders different, the state it ends in is
  the state right after that one call of \<^verbatim>\<open>reorder_rules\<close>: the flag becomes
  \<^verbatim>\<open>not None\<close>, the outer loop stops, and no further call reaches the gateway,
  whether or not the reordering converged.
\<close>

theorem check_and_reorder_rules_single_call:
  assumes "get_endpoint cls = Inr ep"
    and "api_get gw w (Some ep) folder_scope limit position = (w1, Inr all_current_rules)"
    and "rules_in_folder all_current_rules folder_scope = Inr current_rules"
    and "rule_names_no_default current_rules = Inr current_order"
    and "rule_names_no_default original_rules = Inr desired_order"
    and "\<not> py_eq_list current_order desired_order"
  shows "\<exists>w2 r.
           reorder_rules gw w1 cls (str_replace ep ''?'' '''') folder_scope original_rules
             current_rules limit position = (w2, r) \<and>
           (r = Inr PNone \<or> isl r) \<and>
           check_and_reorder_rules gw w cls folder_scope original_rules limit position
             = (w2, map_sum id (\<lambda>moves_made. ()) r)"
proof -
  obtain w2 r where rr:
    "reorder_rules gw w1 cls (str_replace ep ''?'' '''') folder_scope original_rules
       current_rules limit position = (w2, r)"
    by (cases "reorder_rules gw w1 cls (str_replace ep ''?'' '''') folder_scope original_rules
                 current_rules limit position")
  have first: "check_and_reorder_rules gw w cls folder_scope original_rules limit position
          = (case r of
               Inl e \<Rightarrow> (w2, Inl e)
             | Inr moves_made \<Rightarrow>
                 check_and_reorder_loop gw w2 cls folder_scope original_rules limit position
                   (\<not> py_truthy moves_made))"
    unfolding check_and_reorder_rules_def
    by (subst check_and_reorder_loop.simps) (simp add: assms rr)
  show ?thesis
  proof (cases r)
    case (Inl e)
    with rr first show ?thesis by simp
  next
    case (Inr moves_made)
    with rr have none: "moves_made = PNone"
      using reorder_rules_result by blast
    have "check_and_reorder_loop gw w2 cls folder_scope original_rules limit position True
            = (w2, Inr ())"
      by (subst check_and_reorder_loop.simps) simp
    with rr first Inr none show ?thesis by simp
  qed
qed

theorem check_and_reorder_rules_single_call_witness:
  "get_endpoint security_rule = Inr ''/sse/config/v1/security-rules?'' \<and>
   api_get list_remote
     (start_world [PDict (rule_record ''A'' ''1'' ''T''), PDict (rule_record ''B'' ''2'' ''T''),
        PDict (rule_record ''C'' ''3'' ''T'')])
     (Some ''/sse/config/v1/security-rules?'') ''T'' ''10000'' ''pre''
   = (\<lparr>remote = [PDict (rule_record ''A'' ''1'' ''T''), PDict (rule_record ''B'' ''2'' ''T''),
        PDict (rule_record ''C'' ''3'' ''T'')],
       calls = [GetCall (Some ''/sse/config/v1/security-rules?'') ''T'' ''10000'' ''pre''],
       log = []\<rparr>,
      Inr [PDict (rule_record ''A'' ''1'' ''T''), PDict (rule_record ''B'' ''2'' ''T''),
        PDict (rule_record ''C'' ''3'' ''T'')]) \<and>
   rules_in_folder [PDict (rule_record ''A'' ''1'' ''T''), PDict (rule_record ''B'' ''2'' ''T''),
        PDict (rule_record ''C'' ''3'' ''T'')] ''T''
   = Inr [rule_record ''A'' ''1'' ''T'', rule_record ''B'' ''2'' ''T'', rule_record ''C'' ''3'' ''T''] \<and>
   rule_names_no_default
     [rule_record ''A'' ''1'' ''T'', rule_record ''B'' ''2'' ''T'', rule_record ''C'' ''3'' ''T'']
   = Inr [PStr ''A'', PStr ''B'', PStr ''C''] \<and>
   rule_names_no_default [named ''C'', named ''A'', named ''B'']
   = Inr [PStr ''C'', PStr ''A'', PStr ''B''] \<and>
   \<not> py_eq_list [PStr ''A'', PStr ''B'', PStr ''C''] [PStr ''C'', PStr ''A'', PStr ''B''] \<and>
   (\<exists>w2 r.
      reorder_rules list_remote
        \<lparr>remote = [PDict (rule_record ''A'' ''1'' ''T''), PDict (rule_record ''B'' ''2'' ''T''),
           PDict (rule_record ''C'' ''3'' ''T'')],
         calls = [GetCall (Some ''/sse/config/v1/security-rules?'') ''T'' ''10000'' ''pre''],
         log = []\<rparr>
        security_rule (str_replace ''/sse/config/v1/security-rules?'' ''?'' '''') ''T''
        [named ''C'', named ''A'', named ''B'']
        [rule_record ''A'' ''1'' ''T'', rule_record ''B'' ''2'' ''T'', rule_record ''C'' ''3'' ''T'']
        ''10000'' ''pre'' = (w2, r) \<and>
      (r = Inr PNone \<or> isl r) \<and>
      check_and_reorder_rules list_remote
        (start_world [PDict (rule_record ''A'' ''1'' ''T''), PDict (rule_record ''B'' ''2'' ''T''),
           PDict (rule_record ''C'' ''3'' ''T'')])
        security_rule ''T'' [named ''C'', named ''A'', named ''B''] ''10000'' ''pre''
      = (w2, map_sum id (\<lambda>moves_made. ()) r))"
proof -
  have 1: "get_endpoint security_rule = Inr ''/sse/config/v1/security-rules?''"
    by (simp add: get_endpoint_def security_rule_def)
  have 2: "api_get list_remote
     (start_world [PDict (rule_record ''A'' ''1'' ''T''), PDict (rule_record ''B'' ''2'' ''T''),
        PDict (rule_record ''C'' ''3'' ''T'')])
     (Some ''/sse/config/v1/security-rules?'') ''T'' ''10000'' ''pre''
   = (\<lparr>remote = [PDict (rule_record ''A'' ''1'' ''T''), PDict (rule_record ''B'' ''2'' ''T''),
        PDict (rule_record ''C'' ''3'' ''T'')],
       calls = [GetCall (Some ''/sse/config/v1/security-rules?'') ''T'' ''10000'' ''pre''],
       log = []\<rparr>,
      Inr [PDict (rule_record ''A'' ''1'' ''T''), PDict (rule_record ''B'' ''2'' ''T''),
        PDict (rule_record ''C'' ''3'' ''T'')])"
    by (simp add: api_get_def list_remote_def start_world_def)
  have 3: "rules_in_folder [PDict (rule_record ''A'' ''1'' ''T''), PDict (rule_record ''B'' ''2'' ''T''),
        PDict (rule_record ''C'' ''3'' ''T'')] ''T''
   = Inr [rule_record ''A'' ''1'' ''T'', rule_record ''B'' ''2'' ''T'', rule_record ''C'' ''3'' ''T'']"
    by (simp add: rule_record_def getitem_def)
  have 4: "rule_names_no_default
     [rule_record ''A'' ''1'' ''T'', rule_record ''B'' ''2'' ''T'', rule_record ''C'' ''3'' ''T'']
   = Inr [PStr ''A'', PStr ''B'', PStr ''C'']"
    by (simp add: rule_record_def getitem_def)
  have 5: "rule_names_no_default [named ''C'', named ''A'', named ''B'']
   = Inr [PStr ''C'', PStr ''A'', PStr ''B'']"
    by (simp add: named_def getitem_def)
  have 6: "\<not> py_eq_list [PStr ''A'', PStr ''B'', PStr ''C''] [PStr ''C'', PStr ''A'', PStr ''B'']"
    by simp
  from check_and_reorder_rules_single_call [OF 1 2 3 4 5 6] 1 2 3 4 5 6
  show ?thesis by simp
qed

text \<open>
  C6. \<^verbatim>\<open>is_rule_order_correct\<close> compares all names, the sentinel included: with current
  rules \<^verbatim>\<open>A, default\<close> and desired rules \<^verbatim>\<open>A\<close> it answers \<^verbatim>\<open>False\<close>, although the
  orders without \<^verbatim>\<open>default\<close>, which \<^verbatim>\<open>check_and_reorder_rules\<close> compares, are equal.
  The first test of the loop of \<^verbatim>\<open>reorder_rules\<close> is made on the same unfiltered
  names: on these rules it finds the orders different and spends an attempt.
\<close>

theorem is_rule_order_correct_counts_default:
  "is_rule_order_correct [rule_record ''A'' ''1'' ''T'', rule_record ''default'' ''0'' ''T'']
     [named ''A''] = Inr False \<and>
   rule_names_no_default [rule_record ''A'' ''1'' ''T'', rule_record ''default'' ''0'' ''T'']
     = rule_names_no_default [named ''A''] \<and>
   rule_names [rule_record ''A'' ''1'' ''T'', rule_record ''default'' ''0'' ''T'']
     = Inr [PStr ''A'', PStr ''default''] \<and>
   reorder_loop gw w cls endpoint ''T'' [(PStr ''A'', PStr ''1''), (PStr ''default'', PStr ''0'')]
     limit position [PStr ''A''] [PStr ''A'', PStr ''default''] 0
   = (w, 1, Inr [PStr ''A'', PStr ''default''])"
  by (simp add: is_rule_order_correct_def rule_record_def named_def getitem_def
      reorder_loop.simps max_attempts_def)

section \<open>Properties of the classification\<close>



definition shares_name :: "pydict \<Rightarrow> pyval \<Rightarrow> bool" where
  "shares_name parsed_obj obj =
     (case obj of
        PDict d \<Rightarrow> py_eq (dict_get d ''name'') (dict_get parsed_obj ''name'')
      | _ \<Rightarrow> False)"









lemma shares_name_PDict [simp]:
  "shares_name parsed_obj (PDict d) = py_eq (dict_get d ''name'') (dict_get parsed_obj ''name'')"
  by (simp add: shares_name_def)









text \<open>
  C7. \<^verbatim>\<open>fetch_objects\<close> returns what the gateway returns, with no filter on
  \<^verbatim>\<open>folder\<close>, and \<^verbatim>\<open>get_new_and_updated_entries\<close> diffs against it. With target scope
  \<^verbatim>\<open>Texas\<close> and a remote that returns the record \<^verbatim>\<open>a1\<close> of folder \<^verbatim>\<open>Shared\<close>, the
  current set used for diffing holds that record, and the desired \<^verbatim>\<open>a1\<close> is not
  classified as new; the folder filter of the rule paths would have dropped the record,
  and against the filtered set \<^verbatim>\<open>a1\<close> is new.
\<close>

theorem fetched_objects_not_filtered_by_folder:
  "get_current_objects list_remote
     (start_world [PDict [(''name'', PStr ''a1''), (''id'', PStr ''7''), (''folder'', PStr ''Shared'')]])
     ''Texas'' [address] ''10000''
   = (\<lparr>remote = [PDict [(''name'', PStr ''a1''), (''id'', PStr ''7''), (''folder'', PStr ''Shared'')]],
        calls = [GetCall (Some ''/sse/config/v1/addresses?'') ''Texas'' ''10000'' ''''],
        log = []\<rparr>,
      [(address, [PDict [(''name'', PStr ''a1''), (''id'', PStr ''7''), (''folder'', PStr ''Shared'')]])]) \<and>
   rules_in_folder [PDict [(''name'', PStr ''a1''), (''id'', PStr ''7''), (''folder'', PStr ''Shared'')]]
     ''Texas'' = Inr [] \<and>
   get_new_and_updated_entries [(''Address'', [[(''name'', PStr ''a1'')]])]
     [(address, [PDict [(''name'', PStr ''a1''), (''id'', PStr ''7''), (''folder'', PStr ''Shared'')]])]
   = Inr ([], []) \<and>
   get_new_and_updated_entries [(''Address'', [[(''name'', PStr ''a1'')]])] [(address, [])]
   = Inr ([(''Address'', [[(''name'', PStr ''a1'')]])], [])"
  by (simp add: get_current_objects_def fetch_objects_def api_get_def list_remote_def
      start_world_def address_def get_new_and_updated_entries_def generate_key_name_def
      str_replace_def getitem_def hashable_def dict_get_def dict_append_def needs_update_def
      needs_update_with_def deep_compare.simps(1) Let_def)


end
